theory Spec2Isabelle
  imports Main "HOL-Library.Word" "HOL-Library.Multiset"
begin

section \<open>Bytes, native sizes and caller-owned memory\<close>

text \<open>
  The framework copies native object representations. The model fixes the target the
  source is written for (it calls the \<^verbatim>\<open>_Get_container\<close> extension of the
  64-bit Microsoft library): bytes are octets, \<^verbatim>\<open>size_t\<close> is an unsigned and
  \<^verbatim>\<open>ptrdiff_t\<close> a two's complement signed integer, both eight bytes wide and stored
  least significant byte first. Values of \<^verbatim>\<open>size_t\<close> are \<open>64 word\<close>, so their
  arithmetic wraps as the language defines it; a \<^verbatim>\<open>ptrdiff_t\<close> is an \<open>int\<close> whose
  representation is taken modulo \<open>2 ^ 64\<close>. Addresses are natural numbers: pointer
  arithmetic that leaves the address space has no defined behaviour to model.
\<close>

type_synonym byte_t = "8 word"
type_synonym addr = nat

fun le_bytes :: "nat \<Rightarrow> nat \<Rightarrow> byte_t list" where
  "le_bytes 0 n = []"
| "le_bytes (Suc k) n = of_nat (n mod 256) # le_bytes k (n div 256)"

fun le_value :: "byte_t list \<Rightarrow> nat" where
  "le_value [] = 0"
| "le_value (b # bs) = unat b + 256 * le_value bs"

definition sizeof_size_t :: nat where
  "sizeof_size_t = 8"

definition sizeof_ptrdiff_t :: nat where
  "sizeof_ptrdiff_t = 8"

definition size_t_repr :: "64 word \<Rightarrow> byte_t list" where
  "size_t_repr w = le_bytes sizeof_size_t (unat w)"

definition size_t_value :: "byte_t list \<Rightarrow> 64 word" where
  "size_t_value bs = of_nat (le_value bs)"

definition ptrdiff_t_repr :: "int \<Rightarrow> byte_t list" where
  "ptrdiff_t_repr v = le_bytes sizeof_ptrdiff_t (nat (v mod 2 ^ (8 * sizeof_ptrdiff_t)))"

text \<open>
  \<^verbatim>\<open>memcpy\<close> into memory, and the bytes found at an address. Neither checks a bound:
  memory is a total function of the address, as the source checks none.
\<close>

definition memcpy :: "addr \<Rightarrow> byte_t list \<Rightarrow> (addr \<Rightarrow> byte_t) \<Rightarrow> addr \<Rightarrow> byte_t" where
  "memcpy dst bs m = (\<lambda>a. if dst \<le> a \<and> a < dst + length bs then bs ! (a - dst) else m a)"

definition bytes_at :: "(addr \<Rightarrow> byte_t) \<Rightarrow> addr \<Rightarrow> nat \<Rightarrow> byte_t list" where
  "bytes_at m src n = map m [src ..< src + n]"

section \<open>The three cursor contexts\<close>

text \<open>
  \<^verbatim>\<open>Serialiser\<close> and \<^verbatim>\<open>Deserialiser\<close> hold the same two members,
  \<^verbatim>\<open>m_Data\<close> and \<^verbatim>\<open>m_Head\<close>; one record serves both, together with the memory the
  two pointers refer to. \<^verbatim>\<open>Sizer\<close> holds \<^verbatim>\<open>m_Size\<close> only.
\<close>

record stream =
  m_Data :: addr
  m_Head :: addr
  memory :: "addr \<Rightarrow> byte_t"

record sizer =
  m_Size :: "64 word"

definition Serialiser :: "addr \<Rightarrow> (addr \<Rightarrow> byte_t) \<Rightarrow> stream" where
  "Serialiser a_Data m = \<lparr>m_Data = a_Data, m_Head = a_Data, memory = m\<rparr>"

definition Deserialiser :: "addr \<Rightarrow> (addr \<Rightarrow> byte_t) \<Rightarrow> stream" where
  "Deserialiser a_Data m = \<lparr>m_Data = a_Data, m_Head = a_Data, memory = m\<rparr>"

definition Sizer :: sizer where
  "Sizer = \<lparr>m_Size = 0\<rparr>"

definition SerialiseAsMemory :: "byte_t list \<Rightarrow> stream \<Rightarrow> stream" where
  "SerialiseAsMemory a_Data s =
     s\<lparr>memory := memcpy (m_Head s) a_Data (memory s), m_Head := m_Head s + length a_Data\<rparr>"

definition DeserialiseAsMemory :: "nat \<Rightarrow> stream \<Rightarrow> byte_t list \<times> stream" where
  "DeserialiseAsMemory a_Size d =
     (bytes_at (memory d) (m_Head d) a_Size, d\<lparr>m_Head := m_Head d + a_Size\<rparr>)"

definition AddSizeOfMemory :: "64 word \<Rightarrow> sizer \<Rightarrow> sizer" where
  "AddSizeOfMemory a_Size z = z\<lparr>m_Size := m_Size z + a_Size\<rparr>"

definition GetBytesWritten :: "stream \<Rightarrow> 64 word" where
  "GetBytesWritten s = word_of_int (int (m_Head s) - int (m_Data s))"


definition read_size_t :: "stream \<Rightarrow> 64 word \<times> stream" where
  "read_size_t d = (let (bs, d1) = DeserialiseAsMemory sizeof_size_t d in (size_t_value bs, d1))"

section \<open>The dispatch core\<close>

text \<open>
  A class \<open>T\<close> that is not a container: its size, its object representation (what
  \<^verbatim>\<open>memcpy\<close> reads at the object's address and what an object holds once
  \<^verbatim>\<open>sizeof(T)\<close> bytes were copied over it), the object a default construction
  gives, and the seven optional member functions. \<open>None\<close> is a member the detector
  \<^verbatim>\<open>HasOn...\<close> does not find. The hooks keep their constness: \<^verbatim>\<open>OnSerialise\<close> and
  \<^verbatim>\<open>OnSize\<close> are \<^verbatim>\<open>const\<close> and return the context only, the others change
  the object.
\<close>

record 'o class_T =
  sizeof_T :: nat
  object_repr :: "'o \<Rightarrow> byte_t list"
  object_of_repr :: "byte_t list \<Rightarrow> 'o"
  default_object :: 'o
  OnBeforeSerialise :: "('o \<Rightarrow> 'o) option"
  OnSerialise :: "('o \<Rightarrow> stream \<Rightarrow> stream) option"
  OnAfterSerialise :: "('o \<Rightarrow> 'o) option"
  OnSize :: "('o \<Rightarrow> sizer \<Rightarrow> sizer) option"
  OnBeforeDeserialise :: "('o \<Rightarrow> 'o) option"
  OnDeserialise :: "('o \<Rightarrow> stream \<Rightarrow> 'o \<times> stream) option"
  OnAfterDeserialise :: "('o \<Rightarrow> 'o) option"

definition Serialise :: "'o class_T \<Rightarrow> 'o \<Rightarrow> stream \<Rightarrow> 'o \<times> stream" where
  "Serialise T a_Object a_Serialiser =
     (let o1 = (case OnBeforeSerialise T of
                  Some hook \<Rightarrow> hook a_Object
                | None \<Rightarrow> a_Object);
          s1 = (case OnSerialise T of
                  Some hook \<Rightarrow> hook o1 a_Serialiser
                | None \<Rightarrow> SerialiseAsMemory (object_repr T o1) a_Serialiser);
          o2 = (case OnAfterSerialise T of
                  Some hook \<Rightarrow> hook o1
                | None \<Rightarrow> o1)
      in (o2, s1))"

definition Deserialise :: "'o class_T \<Rightarrow> 'o \<Rightarrow> stream \<Rightarrow> 'o \<times> stream" where
  "Deserialise T o_Object a_Deserialiser =
     (let o1 = (case OnBeforeDeserialise T of
                  Some hook \<Rightarrow> hook o_Object
                | None \<Rightarrow> o_Object);
          (o2, d1) = (case OnDeserialise T of
                  Some hook \<Rightarrow> hook o1 a_Deserialiser
                | None \<Rightarrow>
                    (let (bs, d) = DeserialiseAsMemory (sizeof_T T) a_Deserialiser
                     in (object_of_repr T bs, d)));
          o3 = (case OnAfterDeserialise T of
                  Some hook \<Rightarrow> hook o2
                | None \<Rightarrow> o2)
      in (o3, d1))"

definition SizeOf :: "'o class_T \<Rightarrow> 'o \<Rightarrow> sizer \<Rightarrow> sizer" where
  "SizeOf T a_Object a_Sizer =
     (case OnSize T of
        Some hook \<Rightarrow> hook a_Object a_Sizer
      | None \<Rightarrow> AddSizeOfMemory (of_nat (sizeof_T T)) a_Sizer)"

section \<open>Loops\<close>

text \<open>
  A range-based \<^verbatim>\<open>for\<close> over a container, calling the element functor on every
  element in order. The functor receives the context and the element by reference, so
  it returns both.
\<close>

fun for_each :: "('a \<Rightarrow> 's \<Rightarrow> 'a \<times> 's) \<Rightarrow> 'a list \<Rightarrow> 's \<Rightarrow> 'a list \<times> 's" where
  "for_each a_Functor [] s = ([], s)"
| "for_each a_Functor (Object # rest) s =
     (let (Object', s1) = a_Functor Object s;
          (rest', s2) = for_each a_Functor rest s1
      in (Object' # rest', s2))"

text \<open>The counted loop \<^verbatim>\<open>for ( size_t i = 0; i < Size; ++i )\<close> over a loop state.\<close>

function count_loop :: "(nat \<Rightarrow> 'st \<Rightarrow> 'st) \<Rightarrow> nat \<Rightarrow> nat \<Rightarrow> 'st \<Rightarrow> 'st" where
  "count_loop body i Size st =
     (if i < Size then count_loop body (Suc i) Size (body i st) else st)"
  by pat_completeness auto
termination
  by (relation "measure (\<lambda>(body, i, Size, st). Size - i)") auto

declare count_loop.simps [simp del]


text \<open>
  \<^verbatim>\<open>SerialiseVariadic\<close>, \<^verbatim>\<open>DeserialiseVariadic\<close> and \<^verbatim>\<open>SizeOfVariadic\<close> on a
  \<^verbatim>\<open>std::pair\<close>: the fold expression visits \<^verbatim>\<open>std::get<0>\<close>, then
  \<^verbatim>\<open>std::get<1>\<close>.
\<close>

definition Variadic_pair ::
  "('a \<Rightarrow> 's \<Rightarrow> 'a \<times> 's) \<Rightarrow> ('b \<Rightarrow> 's \<Rightarrow> 'b \<times> 's) \<Rightarrow> 'a \<times> 'b \<Rightarrow> 's \<Rightarrow> ('a \<times> 'b) \<times> 's" where
  "Variadic_pair first second a_Object s =
     (let (x, s1) = first (fst a_Object) s;
          (y, s2) = second (snd a_Object) s1
      in ((x, y), s2))"

section \<open>Standard containers\<close>

text \<open>
  The operations of the standard library the overloads call, as the language standard
  describes them. A container is the list of its elements in iteration order.
  \<^verbatim>\<open>resize\<close> keeps the leading elements and appends value-initialised ones. An
  ordered container keeps its elements sorted by the comparison of their keys;
  \<^verbatim>\<open>emplace\<close> on a unique-key container inserts nothing when an equivalent key is
  present, and on a multi-key container inserts after the equivalent keys. A hashed
  container iterates in an order the standard leaves open: the position a new element
  takes is a parameter.
\<close>

definition resize :: "nat \<Rightarrow> 'a \<Rightarrow> 'a list \<Rightarrow> 'a list" where
  "resize n dflt c = take n c @ replicate (n - length c) dflt"

fun emplace_unique :: "('k \<Rightarrow> 'k \<Rightarrow> bool) \<Rightarrow> ('e \<Rightarrow> 'k) \<Rightarrow> 'e \<Rightarrow> 'e list \<Rightarrow> 'e list" where
  "emplace_unique lt key x [] = [x]"
| "emplace_unique lt key x (y # ys) =
     (if lt (key x) (key y) then x # y # ys
      else if lt (key y) (key x) then y # emplace_unique lt key x ys
      else y # ys)"

fun emplace_multi :: "('k \<Rightarrow> 'k \<Rightarrow> bool) \<Rightarrow> ('e \<Rightarrow> 'k) \<Rightarrow> 'e \<Rightarrow> 'e list \<Rightarrow> 'e list" where
  "emplace_multi lt key x [] = [x]"
| "emplace_multi lt key x (y # ys) =
     (if lt (key x) (key y) then x # y # ys
      else y # emplace_multi lt key x ys)"

definition insert_at :: "nat \<Rightarrow> 'e \<Rightarrow> 'e list \<Rightarrow> 'e list" where
  "insert_at p x c = take p c @ x # drop p c"

definition emplace_hashed_unique ::
  "('k \<Rightarrow> 'k list \<Rightarrow> nat) \<Rightarrow> ('e \<Rightarrow> 'k) \<Rightarrow> 'e \<Rightarrow> 'e list \<Rightarrow> 'e list" where
  "emplace_hashed_unique place key x c =
     (if key x \<in> set (map key c) then c else insert_at (place (key x) (map key c)) x c)"

definition emplace_hashed_multi ::
  "('k \<Rightarrow> 'k list \<Rightarrow> nat) \<Rightarrow> ('e \<Rightarrow> 'k) \<Rightarrow> 'e \<Rightarrow> 'e list \<Rightarrow> 'e list" where
  "emplace_hashed_multi place key x c = insert_at (place (key x) (map key c)) x c"

section \<open>Serialiser: the container overloads\<close>

text \<open>
  One definition for each distinct body of \<^verbatim>\<open>Serialiser::SerialiseAsContainer\<close>.
  The overloads for \<^verbatim>\<open>T[N]\<close>, \<^verbatim>\<open>std::array\<close>, \<^verbatim>\<open>vector\<close>, \<^verbatim>\<open>list\<close>,
  \<^verbatim>\<open>deque\<close>, the four maps and the four sets share one body: the element count as a
  \<^verbatim>\<open>size_t\<close>, then every element through the functor. The \<^verbatim>\<open>forward_list\<close>
  overload takes its count from \<^verbatim>\<open>std::distance\<close>, a \<^verbatim>\<open>ptrdiff_t\<close>. A string
  of characters \<open>cw\<close> bytes wide writes its length and then its character data.
  \<^verbatim>\<open>queue\<close> and \<^verbatim>\<open>stack\<close> pass their underlying container on. The
  \<^verbatim>\<open>priority_queue\<close> overload moves the queue into a helper, serialises the helper's
  heap and moves the helper back.
\<close>

definition SerialiseAsContainer_basic_string :: "nat \<Rightarrow> byte_t list \<Rightarrow> stream \<Rightarrow> stream" where
  "SerialiseAsContainer_basic_string cw chars s =
     (let Size = (of_nat (length chars div cw) :: 64 word);
          s1 = SerialiseAsMemory (size_t_repr Size) s
      in SerialiseAsMemory (take (unat (of_nat cw * Size)) chars) s1)"

definition SerialiseAsContainer_sized ::
  "('a \<Rightarrow> stream \<Rightarrow> 'a \<times> stream) \<Rightarrow> 'a list \<Rightarrow> stream \<Rightarrow> 'a list \<times> stream" where
  "SerialiseAsContainer_sized a_Functor a_Container s =
     (let Size = (of_nat (length a_Container) :: 64 word);
          s1 = SerialiseAsMemory (size_t_repr Size) s
      in for_each a_Functor a_Container s1)"

definition SerialiseAsContainer_forward_list ::
  "('a \<Rightarrow> stream \<Rightarrow> 'a \<times> stream) \<Rightarrow> 'a list \<Rightarrow> stream \<Rightarrow> 'a list \<times> stream" where
  "SerialiseAsContainer_forward_list a_Functor a_Container s =
     (let Size = int (length a_Container);
          s1 = SerialiseAsMemory (ptrdiff_t_repr Size) s
      in for_each a_Functor a_Container s1)"

definition SerialiseAsContainer_priority_queue ::
  "('c \<Rightarrow> stream \<Rightarrow> 'c \<times> stream) \<Rightarrow> 'c \<Rightarrow> stream \<Rightarrow> 'c \<times> stream" where
  "SerialiseAsContainer_priority_queue underlying a_Container s =
     (let Helper = a_Container;
          (Heap, s1) = underlying Helper s;
          a_Container' = Heap
      in (a_Container', s1))"

section \<open>Sizer: the container overloads\<close>

text \<open>
  The overloads of \<^verbatim>\<open>Sizer::AddSizeOfContainer\<close> have the bodies of their
  \<^verbatim>\<open>Serialiser\<close> counterparts with \<^verbatim>\<open>AddSizeOfMemory\<close> in place of the
  writes. Like those, the definitions of this section describe an overload that
  returns: the \<^verbatim>\<open>priority_queue\<close> overload moves the measured queue into
  \<^verbatim>\<open>Helper\<close>, measures the helper's heap and moves the helper back. What it
  leaves behind when an element functor throws is the subject of the section on
  exceptions below.
\<close>

definition AddSizeOfContainer_basic_string :: "nat \<Rightarrow> byte_t list \<Rightarrow> sizer \<Rightarrow> sizer" where
  "AddSizeOfContainer_basic_string cw chars z =
     (let z1 = AddSizeOfMemory (of_nat sizeof_size_t) z
      in AddSizeOfMemory (of_nat cw * of_nat (length chars div cw)) z1)"

definition AddSizeOfContainer_sized ::
  "('a \<Rightarrow> sizer \<Rightarrow> 'a \<times> sizer) \<Rightarrow> 'a list \<Rightarrow> sizer \<Rightarrow> 'a list \<times> sizer" where
  "AddSizeOfContainer_sized a_Functor a_Container z =
     (let z1 = AddSizeOfMemory (of_nat sizeof_size_t) z
      in for_each a_Functor a_Container z1)"

definition AddSizeOfContainer_forward_list ::
  "('a \<Rightarrow> sizer \<Rightarrow> 'a \<times> sizer) \<Rightarrow> 'a list \<Rightarrow> sizer \<Rightarrow> 'a list \<times> sizer" where
  "AddSizeOfContainer_forward_list a_Functor a_Container z =
     (let z1 = AddSizeOfMemory (of_nat sizeof_ptrdiff_t) z
      in for_each a_Functor a_Container z1)"

definition AddSizeOfContainer_map ::
  "('a \<Rightarrow> sizer \<Rightarrow> 'a \<times> sizer) \<Rightarrow> ('b \<Rightarrow> sizer \<Rightarrow> 'b \<times> sizer) \<Rightarrow>
     ('a \<times> 'b) list \<Rightarrow> sizer \<Rightarrow> ('a \<times> 'b) list \<times> sizer" where
  "AddSizeOfContainer_map a_KeyFunctor a_ValueFunctor a_Container z =
     (let z1 = AddSizeOfMemory (of_nat sizeof_size_t) z
      in for_each (Variadic_pair a_KeyFunctor a_ValueFunctor) a_Container z1)"

definition AddSizeOfContainer_priority_queue ::
  "('c \<Rightarrow> sizer \<Rightarrow> 'c \<times> sizer) \<Rightarrow> 'c \<Rightarrow> sizer \<Rightarrow> 'c \<times> sizer" where
  "AddSizeOfContainer_priority_queue underlying a_Container z =
     (let Helper = a_Container;
          (Heap, z1) = underlying Helper z;
          a_Container' = Heap
      in (a_Container', z1))"

section \<open>Deserialiser: the container overloads\<close>

text \<open>
  The destination is an output parameter: every overload takes its present contents
  and returns the new ones. \<open>dflt\<close> is the value-initialised element that
  \<^verbatim>\<open>resize\<close>, \<^verbatim>\<open>emplace_back\<close>, \<^verbatim>\<open>emplace_after\<close> and the local
  \<^verbatim>\<open>Key\<close> and \<^verbatim>\<open>Value\<close> start from. The indexed loops read
  \<^verbatim>\<open>o_Container[ i ]\<close> below the container's length only: the fixed-size overloads
  bound the count by \<open>N\<close>, the others resize first. In the \<^verbatim>\<open>forward_list\<close> loop
  \<open>Begin\<close> counts the elements in front of the insertion point.
\<close>

definition DeserialiseAsContainer_basic_string ::
  "nat \<Rightarrow> byte_t list \<Rightarrow> stream \<Rightarrow> byte_t list \<times> stream" where
  "DeserialiseAsContainer_basic_string cw o_Container d =
     (let (Size, d1) = read_size_t d;
          c1 = resize (cw * unat Size) 0 o_Container;
          (bs, d2) = DeserialiseAsMemory (unat (of_nat cw * Size)) d1
      in (bs @ drop (length bs) c1, d2))"

definition DeserialiseAsContainer_array ::
  "('a \<Rightarrow> stream \<Rightarrow> 'a \<times> stream) \<Rightarrow> 'a list \<Rightarrow> stream \<Rightarrow> 'a list \<times> stream" where
  "DeserialiseAsContainer_array a_Functor o_Container d =
     (let (Size, d1) = read_size_t d;
          N = length o_Container;
          Size' = (if N < unat Size then N else unat Size)
      in count_loop
           (\<lambda>i (c, d). let (x, d') = a_Functor (c ! i) d in (c[i := x], d'))
           0 Size' (o_Container, d1))"

definition DeserialiseAsContainer_vector ::
  "('a \<Rightarrow> stream \<Rightarrow> 'a \<times> stream) \<Rightarrow> 'a \<Rightarrow> 'a list \<Rightarrow> stream \<Rightarrow> 'a list \<times> stream" where
  "DeserialiseAsContainer_vector a_Functor dflt o_Container d =
     (let (Size, d1) = read_size_t d;
          c1 = resize (unat Size) dflt o_Container
      in count_loop
           (\<lambda>i (c, d). let (x, d') = a_Functor (c ! i) d in (c[i := x], d'))
           0 (unat Size) (c1, d1))"

definition DeserialiseAsContainer_list ::
  "('a \<Rightarrow> stream \<Rightarrow> 'a \<times> stream) \<Rightarrow> 'a \<Rightarrow> 'a list \<Rightarrow> stream \<Rightarrow> 'a list \<times> stream" where
  "DeserialiseAsContainer_list a_Functor dflt o_Container d =
     (let (Size, d1) = read_size_t d
      in count_loop
           (\<lambda>i (c, d). let (x, d') = a_Functor dflt d in (c @ [x], d'))
           0 (unat Size) (o_Container, d1))"

definition DeserialiseAsContainer_forward_list ::
  "('a \<Rightarrow> stream \<Rightarrow> 'a \<times> stream) \<Rightarrow> 'a \<Rightarrow> 'a list \<Rightarrow> stream \<Rightarrow> 'a list \<times> stream" where
  "DeserialiseAsContainer_forward_list a_Functor dflt o_Container d =
     (let (Size, d1) = read_size_t d;
          (c, Begin, d2) =
            count_loop
              (\<lambda>i (c, Begin, d).
                 let (x, d') = a_Functor dflt d in (insert_at Begin x c, Suc Begin, d'))
              0 (unat Size) (o_Container, 0, d1)
      in (c, d2))"

definition DeserialiseAsContainer_map ::
  "('a \<times> 'b \<Rightarrow> ('a \<times> 'b) list \<Rightarrow> ('a \<times> 'b) list) \<Rightarrow>
     ('a \<Rightarrow> stream \<Rightarrow> 'a \<times> stream) \<Rightarrow> ('b \<Rightarrow> stream \<Rightarrow> 'b \<times> stream) \<Rightarrow> 'a \<Rightarrow> 'b \<Rightarrow>
     ('a \<times> 'b) list \<Rightarrow> stream \<Rightarrow> ('a \<times> 'b) list \<times> stream" where
  "DeserialiseAsContainer_map emplace a_KeyFunctor a_ValueFunctor key_dflt value_dflt o_Container d =
     (let (Size, d1) = read_size_t d
      in count_loop
           (\<lambda>i (c, d).
              let (Key, d') = a_KeyFunctor key_dflt d;
                  (Value, d'') = a_ValueFunctor value_dflt d'
              in (emplace (Key, Value) c, d''))
           0 (unat Size) (o_Container, d1))"

definition DeserialiseAsContainer_set ::
  "('a \<Rightarrow> 'a list \<Rightarrow> 'a list) \<Rightarrow> ('a \<Rightarrow> stream \<Rightarrow> 'a \<times> stream) \<Rightarrow> 'a \<Rightarrow>
     'a list \<Rightarrow> stream \<Rightarrow> 'a list \<times> stream" where
  "DeserialiseAsContainer_set emplace a_Functor dflt o_Container d =
     (let (Size, d1) = read_size_t d
      in count_loop
           (\<lambda>i (c, d). let (Value, d') = a_Functor dflt d in (emplace Value c, d'))
           0 (unat Size) (o_Container, d1))"

definition DeserialiseAsContainer_priority_queue ::
  "('c \<Rightarrow> stream \<Rightarrow> 'c \<times> stream) \<Rightarrow> 'c \<Rightarrow> stream \<Rightarrow> 'c \<times> stream" where
  "DeserialiseAsContainer_priority_queue underlying o_Container d =
     (let Helper = o_Container;
          (Heap, d1) = underlying Helper d;
          o_Container' = Heap
      in (o_Container', d1))"

section \<open>Auxiliary notions\<close>

text \<open>
  A type with no member function at all (a Leaf): the object is its \<open>n\<close> bytes.
  \<open>run_hook\<close> invokes a lifecycle member if the type declares it. \<open>holds d bs\<close>
  says that the bytes \<open>bs\<close> lie in memory at the cursor, \<open>advance\<close> moves the
  cursor, \<open>stored_count\<close> is the element count found at the cursor, and
  \<open>probe_buffer\<close> a reader at the start of a buffer with the given contents.
\<close>

definition trivial_class :: "nat \<Rightarrow> byte_t list class_T" where
  "trivial_class n =
     \<lparr>sizeof_T = n, object_repr = (\<lambda>b. b), object_of_repr = (\<lambda>b. b),
      default_object = replicate n 0,
      OnBeforeSerialise = None, OnSerialise = None, OnAfterSerialise = None, OnSize = None,
      OnBeforeDeserialise = None, OnDeserialise = None, OnAfterDeserialise = None\<rparr>"

definition run_hook :: "('o \<Rightarrow> 'o) option \<Rightarrow> 'o \<Rightarrow> 'o" where
  "run_hook hook x = (case hook of Some h \<Rightarrow> h x | None \<Rightarrow> x)"

definition holds :: "stream \<Rightarrow> byte_t list \<Rightarrow> bool" where
  "holds d bs = (bytes_at (memory d) (m_Head d) (length bs) = bs)"

definition advance :: "nat \<Rightarrow> stream \<Rightarrow> stream" where
  "advance n d = d\<lparr>m_Head := m_Head d + n\<rparr>"

definition stored_count :: "stream \<Rightarrow> nat" where
  "stored_count d = unat (fst (read_size_t d))"

definition probe_buffer :: "byte_t list \<Rightarrow> stream" where
  "probe_buffer bs = Deserialiser 0 (memcpy 0 bs (\<lambda>a. 0))"

text \<open>
  A class that records its lifecycle: the object is the list of the hooks that ran on
  it, its core hooks write or append a mark of their own, and \<open>has_core\<close> says
  whether the type declares the core hooks.
\<close>

definition probe_class :: "bool \<Rightarrow> byte_t list class_T" where
  "probe_class has_core =
     \<lparr>sizeof_T = 2, object_repr = (\<lambda>x. take 2 (x @ [0, 0])), object_of_repr = (\<lambda>bs. bs),
      default_object = [],
      OnBeforeSerialise = Some (\<lambda>x. x @ [1]),
      OnSerialise = (if has_core then Some (\<lambda>x s. SerialiseAsMemory (192 # x) s) else None),
      OnAfterSerialise = Some (\<lambda>x. x @ [3]),
      OnSize = None,
      OnBeforeDeserialise = Some (\<lambda>x. x @ [1]),
      OnDeserialise = (if has_core then Some (\<lambda>x d. (x @ [2], advance 1 d)) else None),
      OnAfterDeserialise = Some (\<lambda>x. x @ [3])\<rparr>"

section \<open>Basic facts\<close>

lemma length_le_bytes [simp]: "length (le_bytes k n) = k"
  by (induction k arbitrary: n) auto

lemma le_value_le_bytes: "le_value (le_bytes k n) = n mod 256 ^ k"
proof (induction k arbitrary: n)
  case 0
  show ?case by simp
next
  case (Suc k)
  have "unat (of_nat (n mod 256) :: byte_t) = n mod 256"
    by (simp add: unat_of_nat)
  then show ?case
    using Suc.IH [of "n div 256"] by (simp add: mod_mult2_eq)
qed

lemma size_t_value_repr [simp]: "size_t_value (size_t_repr w) = w"
proof -
  have "unat w < 256 ^ 8"
    using unsigned_less [of w] by simp
  then show ?thesis
    by (simp add: size_t_value_def size_t_repr_def sizeof_size_t_def le_value_le_bytes)
qed

lemma length_size_t_repr [simp]: "length (size_t_repr w) = sizeof_size_t"
  by (simp add: size_t_repr_def)

lemma ptrdiff_t_repr_int: "ptrdiff_t_repr (int n) = size_t_repr (of_nat n)"
proof -
  have "int n mod 2 ^ 64 = int (n mod 2 ^ 64)"
    by (simp add: zmod_int)
  then have "nat (int n mod 2 ^ 64) = n mod 2 ^ 64"
    by simp
  moreover have "unat (of_nat n :: 64 word) = n mod 2 ^ 64"
    by (simp add: unat_of_nat)
  ultimately show ?thesis
    by (simp add: ptrdiff_t_repr_def size_t_repr_def sizeof_ptrdiff_t_def sizeof_size_t_def)
qed

lemma length_bytes_at [simp]: "length (bytes_at m a n) = n"
  by (simp add: bytes_at_def)

lemma bytes_at_memcpy_same [simp]: "bytes_at (memcpy a bs m) a (length bs) = bs"
  by (auto simp: bytes_at_def memcpy_def intro!: nth_equalityI)

lemma bytes_at_add: "bytes_at m a (k + n) = bytes_at m a k @ bytes_at m (a + k) n"
proof -
  have "[a ..< a + k + n] = [a ..< a + k] @ [a + k ..< a + k + n]"
    by (rule upt_add_eq_append) simp
  then show ?thesis
    by (simp add: bytes_at_def add.assoc)
qed

lemma memcpy_append: "memcpy a (xs @ ys) m = memcpy (a + length xs) ys (memcpy a xs m)"
  by (rule ext) (auto simp: memcpy_def nth_append)

lemma memcpy_Nil [simp]: "memcpy a [] m = m"
  by (rule ext) (auto simp: memcpy_def)

lemma SerialiseAsMemory_append:
  "SerialiseAsMemory (xs @ ys) s = SerialiseAsMemory ys (SerialiseAsMemory xs s)"
  by (simp add: SerialiseAsMemory_def memcpy_append add.assoc)

lemma SerialiseAsMemory_Nil [simp]: "SerialiseAsMemory [] s = s"
  by (simp add: SerialiseAsMemory_def)

lemma for_each_cong [fundef_cong]:
  "xs = ys \<Longrightarrow> s = t \<Longrightarrow> (\<And>x u. x \<in> set ys \<Longrightarrow> f x u = g x u) \<Longrightarrow>
     for_each f xs s = for_each g ys t"
  by (induction ys arbitrary: xs s t) (auto split: prod.splits)

lemma for_each_length: "for_each f xs s = (ys, s') \<Longrightarrow> length ys = length xs"
  by (induction xs arbitrary: s ys s') (auto split: prod.splits)

lemma length_for_each [simp]: "length (fst (for_each f xs s)) = length xs"
  by (cases "for_each f xs s") (simp add: for_each_length)

lemma for_each_append:
  "for_each f (xs @ ys) s =
     (let (xs', s1) = for_each f xs s; (ys', s2) = for_each f ys s1 in (xs' @ ys', s2))"
  by (induction xs arbitrary: s) (auto split: prod.splits)

lemma count_loop_done [simp]: "\<not> i < n \<Longrightarrow> count_loop body i n st = st"
  by (subst count_loop.simps) simp

lemma count_loop_step: "i < n \<Longrightarrow> count_loop body i n st = count_loop body (Suc i) n (body i st)"
  by (subst count_loop.simps) simp

lemma count_loop_fold: "count_loop body i n st = fold body [i ..< n] st"
proof (induction body i n st rule: count_loop.induct)
  case (1 body i Size st)
  show ?case
  proof (cases "i < Size")
    case True
    then show ?thesis
      using "1.IH" by (simp add: count_loop_step upt_conv_Cons)
  next
    case False
    then show ?thesis by simp
  qed
qed

lemma index_loop:
  "i \<le> n \<Longrightarrow> n \<le> length c \<Longrightarrow>
   count_loop (\<lambda>i (c, d). let (x, d') = f (c ! i) d in (c[i := x], d')) i n (c, d) =
     (let (ys, d') = for_each f (take (n - i) (drop i c)) d in (take i c @ ys @ drop n c, d'))"
proof (induction "n - i" arbitrary: i c d)
  case 0
  then show ?case by simp
next
  case (Suc k)
  then have lt: "i < n" and k: "k = n - Suc i" and len: "i < length c"
    by auto
  obtain x d1 where fx: "f (c ! i) d = (x, d1)"
    by (cases "f (c ! i) d")
  have tk: "take (n - i) (drop i c) = c ! i # take (n - Suc i) (drop (Suc i) c)"
    using lt len by (metis Cons_nth_drop_Suc Suc_diff_Suc take_Suc_Cons)
  have IH: "count_loop (\<lambda>i (c, d). let (x, d') = f (c ! i) d in (c[i := x], d')) (Suc i) n (c[i := x], d1) =
     (let (ys, d') = for_each f (take (n - Suc i) (drop (Suc i) (c[i := x]))) d1
      in (take (Suc i) (c[i := x]) @ ys @ drop n (c[i := x]), d'))"
    using Suc.hyps(1) [OF k, of "c[i := x]" d1] lt Suc.prems by simp
  have a: "take (Suc i) (c[i := x]) = take i c @ [x]"
    using len by (simp add: take_Suc_conv_app_nth)
  have b: "drop (Suc i) (c[i := x]) = drop (Suc i) c" by simp
  have c: "drop n (c[i := x]) = drop n c" using lt by simp
  show ?case
    using IH by (subst count_loop_step [OF lt]) (simp add: fx a b c tk split: prod.splits)
qed

lemma emplace_back_loop:
  "count_loop (\<lambda>i (c, d). let (x, d') = f dflt d in (c @ [x], d')) i n (c, d) =
     (let (ys, d') = for_each f (replicate (n - i) dflt) d in (c @ ys, d'))"
proof (induction "n - i" arbitrary: i c d)
  case 0
  then show ?case by simp
next
  case (Suc k)
  then have lt: "i < n" and k: "k = n - Suc i" by auto
  have r: "replicate (n - i) dflt = dflt # replicate (n - Suc i) dflt"
    using lt by (metis Suc_diff_Suc replicate_Suc)
  show ?case
    using Suc.hyps(1) [OF k]
    by (subst count_loop_step [OF lt]) (simp add: r split: prod.splits)
qed

lemma emplace_after_loop:
  "p \<le> length c \<Longrightarrow>
   count_loop (\<lambda>i (c, Begin, d). let (x, d') = f dflt d in (insert_at Begin x c, Suc Begin, d'))
      i n (c, p, d) =
     (let (ys, d') = for_each f (replicate (n - i) dflt) d
      in (take p c @ ys @ drop p c, p + (n - i), d'))"
proof (induction "n - i" arbitrary: i c p d)
  case 0
  then show ?case by simp
next
  case (Suc k)
  then have lt: "i < n" and k: "k = n - Suc i" by auto
  have r: "replicate (n - i) dflt = dflt # replicate (n - Suc i) dflt"
    using lt by (metis Suc_diff_Suc replicate_Suc)
  have len: "\<And>x. Suc p \<le> length (insert_at p x c)"
    using Suc.prems by (simp add: insert_at_def)
  have t: "\<And>x. take (Suc p) (insert_at p x c) = take p c @ [x]"
    using Suc.prems by (simp add: insert_at_def)
  have dr: "\<And>x. drop (Suc p) (insert_at p x c) = drop p c"
    using Suc.prems by (simp add: insert_at_def)
  have n: "Suc (n - Suc i) = n - i"
    using lt by simp
  show ?case
    using Suc.hyps(1) [OF k len]
    by (subst count_loop_step [OF lt]) (simp add: r t dr n split: prod.splits)
qed

lemma emplace_loop_set:
  "count_loop (\<lambda>i (c, d). let (Value, d') = f dflt d in (emplace Value c, d')) i n (c, d) =
     (let (ys, d') = for_each f (replicate (n - i) dflt) d
      in (foldl (\<lambda>c x. emplace x c) c ys, d'))"
proof (induction "n - i" arbitrary: i c d)
  case 0
  then show ?case by simp
next
  case (Suc k)
  then have lt: "i < n" and k: "k = n - Suc i" by auto
  have r: "replicate (n - i) dflt = dflt # replicate (n - Suc i) dflt"
    using lt by (metis Suc_diff_Suc replicate_Suc)
  show ?case
    using Suc.hyps(1) [OF k]
    by (subst count_loop_step [OF lt]) (simp add: r split: prod.splits)
qed

lemma emplace_loop_map:
  "count_loop
     (\<lambda>i (c, d). let (Key, d') = kf kd d; (Value, d'') = vf vd d' in (emplace (Key, Value) c, d''))
     i n (c, d) =
     (let (ys, d') = for_each (Variadic_pair kf vf) (replicate (n - i) (kd, vd)) d
      in (foldl (\<lambda>c x. emplace x c) c ys, d'))"
proof (induction "n - i" arbitrary: i c d)
  case 0
  then show ?case by simp
next
  case (Suc k)
  then have lt: "i < n" and k: "k = n - Suc i" by auto
  have r: "replicate (n - i) (kd, vd) = (kd, vd) # replicate (n - Suc i) (kd, vd)"
    using lt by (metis Suc_diff_Suc replicate_Suc)
  show ?case
    using Suc.hyps(1) [OF k]
    by (subst count_loop_step [OF lt]) (simp add: r Variadic_pair_def split: prod.splits)
qed

lemma advance_simps [simp]:
  "m_Head (advance n d) = m_Head d + n" "m_Data (advance n d) = m_Data d"
  "memory (advance n d) = memory d" "advance 0 d = d"
  "advance n (advance k d) = advance (k + n) d"
  by (simp_all add: advance_def add.assoc)

lemma holds_Nil [simp]: "holds d []"
  by (simp add: holds_def bytes_at_def)

lemma holds_append: "holds d (xs @ ys) = (holds d xs \<and> holds (advance (length xs) d) ys)"
  by (auto simp: holds_def bytes_at_add)

lemma holds_Deserialiser [simp]: "holds (Deserialiser a (memcpy a bs m)) bs"
  by (simp add: holds_def Deserialiser_def)




lemma Deserialise_trivial [simp]:
  "Deserialise (trivial_class n) x d = (bytes_at (memory d) (m_Head d) n, advance n d)"
  by (simp add: Deserialise_def trivial_class_def DeserialiseAsMemory_def advance_def)

lemma Serialise_trivial [simp]:
  "Serialise (trivial_class n) x s = (x, SerialiseAsMemory x s)"
  by (simp add: Serialise_def trivial_class_def)

lemma SizeOf_trivial [simp]:
  "SizeOf (trivial_class n) x z = AddSizeOfMemory (of_nat n) z"
  by (simp add: SizeOf_def trivial_class_def)

lemma holds_bytes_at:
  "holds d (xs @ ys) \<Longrightarrow> bytes_at (memory d) (m_Head d) (length xs) = xs"
  by (drule holds_append [THEN iffD1]) (simp add: holds_def)

section \<open>Values of every supported shape\<close>

lemma Variadic_pair_cong [fundef_cong]:
  "p = q \<Longrightarrow> s = t \<Longrightarrow> (\<And>u. f (fst q) u = f' (fst q) u) \<Longrightarrow>
   (\<And>u. g (snd q) u = g' (snd q) u) \<Longrightarrow> Variadic_pair f g p s = Variadic_pair f' g' q t"
  by (simp add: Variadic_pair_def split: prod.splits)

lemma SerialiseAsContainer_sized_cong [fundef_cong]:
  "xs = ys \<Longrightarrow> s = t \<Longrightarrow> (\<And>x u. x \<in> set ys \<Longrightarrow> f x u = g x u) \<Longrightarrow>
     SerialiseAsContainer_sized f xs s = SerialiseAsContainer_sized g ys t"
  unfolding SerialiseAsContainer_sized_def Let_def by (rule for_each_cong) simp_all

lemma SerialiseAsContainer_forward_list_cong [fundef_cong]:
  "xs = ys \<Longrightarrow> s = t \<Longrightarrow> (\<And>x u. x \<in> set ys \<Longrightarrow> f x u = g x u) \<Longrightarrow>
     SerialiseAsContainer_forward_list f xs s = SerialiseAsContainer_forward_list g ys t"
  unfolding SerialiseAsContainer_forward_list_def Let_def by (rule for_each_cong) simp_all

lemma SerialiseAsContainer_priority_queue_cong [fundef_cong]:
  "c = c' \<Longrightarrow> s = t \<Longrightarrow> (\<And>u. f c' u = g c' u) \<Longrightarrow>
     SerialiseAsContainer_priority_queue f c s = SerialiseAsContainer_priority_queue g c' t"
  by (simp add: SerialiseAsContainer_priority_queue_def)

lemma AddSizeOfContainer_sized_cong [fundef_cong]:
  "xs = ys \<Longrightarrow> s = t \<Longrightarrow> (\<And>x u. x \<in> set ys \<Longrightarrow> f x u = g x u) \<Longrightarrow>
     AddSizeOfContainer_sized f xs s = AddSizeOfContainer_sized g ys t"
  unfolding AddSizeOfContainer_sized_def Let_def by (rule for_each_cong) simp_all

lemma AddSizeOfContainer_forward_list_cong [fundef_cong]:
  "xs = ys \<Longrightarrow> s = t \<Longrightarrow> (\<And>x u. x \<in> set ys \<Longrightarrow> f x u = g x u) \<Longrightarrow>
     AddSizeOfContainer_forward_list f xs s = AddSizeOfContainer_forward_list g ys t"
  unfolding AddSizeOfContainer_forward_list_def Let_def by (rule for_each_cong) simp_all

lemma AddSizeOfContainer_map_cong [fundef_cong]:
  "xs = ys \<Longrightarrow> s = t \<Longrightarrow> (\<And>x u. x \<in> set ys \<Longrightarrow> f (fst x) u = f' (fst x) u) \<Longrightarrow>
   (\<And>x u. x \<in> set ys \<Longrightarrow> g (snd x) u = g' (snd x) u) \<Longrightarrow>
     AddSizeOfContainer_map f g xs s = AddSizeOfContainer_map f' g' ys t"
  unfolding AddSizeOfContainer_map_def Let_def
  by (rule for_each_cong) (simp_all add: Variadic_pair_def split: prod.splits)

lemma AddSizeOfContainer_priority_queue_cong [fundef_cong]:
  "c = c' \<Longrightarrow> s = t \<Longrightarrow> (\<And>u. f c' u = g c' u) \<Longrightarrow>
     AddSizeOfContainer_priority_queue f c s = AddSizeOfContainer_priority_queue g c' t"
  by (simp add: AddSizeOfContainer_priority_queue_def)

type_synonym class_id = nat

datatype seq_kind = c_array | std_array | std_vector | std_list | std_forward_list | std_deque
datatype adapter_kind = std_queue | std_stack | std_priority_queue
datatype assoc_kind = ordered_unique | ordered_multi | unordered_unique | unordered_multi

datatype 'o val =
    Leaf "byte_t list"
  | Obj class_id 'o
  | Str nat "byte_t list"
  | Tuple "'o val list"
  | Seq seq_kind "'o val list"
  | Adapter adapter_kind "'o val"
  | MapC assoc_kind "('o val \<times> 'o val) list"
  | SetC assoc_kind "'o val list"

fun op_write :: "(class_id \<Rightarrow> 'o class_T) \<Rightarrow> 'o val \<Rightarrow> stream \<Rightarrow> 'o val \<times> stream" where
  "op_write ct (Leaf b) s =
     (let (b', s') = Serialise (trivial_class (length b)) b s in (Leaf b', s'))"
| "op_write ct (Obj c x) s =
     (let (x', s') = Serialise (ct c) x s in (Obj c x', s'))"
| "op_write ct (Str cw chars) s =
     (Str cw chars, SerialiseAsContainer_basic_string cw chars s)"
| "op_write ct (Tuple slots) s =
     (let (slots', s') = for_each (\<lambda>x u. op_write ct x u) slots s in (Tuple slots', s'))"
| "op_write ct (Seq k xs) s =
     (let (xs', s') =
        (if k = std_forward_list
         then SerialiseAsContainer_forward_list (\<lambda>x u. op_write ct x u) xs s
         else SerialiseAsContainer_sized (\<lambda>x u. op_write ct x u) xs s)
      in (Seq k xs', s'))"
| "op_write ct (Adapter k c) s =
     (let (c', s') =
        (if k = std_priority_queue
         then SerialiseAsContainer_priority_queue (\<lambda>x u. op_write ct x u) c s
         else op_write ct c s)
      in (Adapter k c', s'))"
| "op_write ct (MapC k es) s =
     (let (es', s') =
        SerialiseAsContainer_sized
          (Variadic_pair (\<lambda>x u. op_write ct x u) (\<lambda>x u. op_write ct x u)) es s
      in (MapC k es', s'))"
| "op_write ct (SetC k xs) s =
     (let (xs', s') = SerialiseAsContainer_sized (\<lambda>x u. op_write ct x u) xs s
      in (SetC k xs', s'))"

fun op_measure :: "(class_id \<Rightarrow> 'o class_T) \<Rightarrow> 'o val \<Rightarrow> sizer \<Rightarrow> 'o val \<times> sizer" where
  "op_measure ct (Leaf b) z = (Leaf b, SizeOf (trivial_class (length b)) b z)"
| "op_measure ct (Obj c x) z = (Obj c x, SizeOf (ct c) x z)"
| "op_measure ct (Str cw chars) z =
     (Str cw chars, AddSizeOfContainer_basic_string cw chars z)"
| "op_measure ct (Tuple slots) z =
     (let (slots', z') = for_each (\<lambda>x u. op_measure ct x u) slots z in (Tuple slots', z'))"
| "op_measure ct (Seq k xs) z =
     (let (xs', z') =
        (if k = std_forward_list
         then AddSizeOfContainer_forward_list (\<lambda>x u. op_measure ct x u) xs z
         else AddSizeOfContainer_sized (\<lambda>x u. op_measure ct x u) xs z)
      in (Seq k xs', z'))"
| "op_measure ct (Adapter k c) z =
     (let (c', z') =
        (if k = std_priority_queue
         then AddSizeOfContainer_priority_queue (\<lambda>x u. op_measure ct x u) c z
         else op_measure ct c z)
      in (Adapter k c', z'))"
| "op_measure ct (MapC k es) z =
     (let (es', z') =
        AddSizeOfContainer_map (\<lambda>x u. op_measure ct x u) (\<lambda>x u. op_measure ct x u) es z
      in (MapC k es', z'))"
| "op_measure ct (SetC k xs) z =
     (let (xs', z') = AddSizeOfContainer_sized (\<lambda>x u. op_measure ct x u) xs z
      in (SetC k xs', z'))"

datatype ty =
    TLeaf nat
  | TObj class_id
  | TStr nat
  | TTuple "ty list"
  | TSeq seq_kind nat ty
  | TAdapter adapter_kind ty
  | TMap assoc_kind ty ty
  | TSet assoc_kind ty

record 'o env =
  class_of :: "class_id \<Rightarrow> 'o class_T"
  key_less :: "'o val \<Rightarrow> 'o val \<Rightarrow> bool"
  hash_place :: "'o val \<Rightarrow> 'o val list \<Rightarrow> nat"

fun default_val :: "(class_id \<Rightarrow> 'o class_T) \<Rightarrow> ty \<Rightarrow> 'o val" where
  "default_val ct (TLeaf n) = Leaf (replicate n 0)"
| "default_val ct (TObj c) = Obj c (default_object (ct c))"
| "default_val ct (TStr cw) = Str cw []"
| "default_val ct (TTuple ts) = Tuple (map (default_val ct) ts)"
| "default_val ct (TSeq k n t) =
     Seq k (if k = c_array \<or> k = std_array then replicate n (default_val ct t) else [])"
| "default_val ct (TAdapter k t) = Adapter k (default_val ct t)"
| "default_val ct (TMap k tk tv) = MapC k []"
| "default_val ct (TSet k t) = SetC k []"

definition emplace ::
  "'o env \<Rightarrow> assoc_kind \<Rightarrow> ('e \<Rightarrow> 'o val) \<Rightarrow> 'e \<Rightarrow> 'e list \<Rightarrow> 'e list" where
  "emplace env k key =
     (case k of
        ordered_unique \<Rightarrow> emplace_unique (key_less env) key
      | ordered_multi \<Rightarrow> emplace_multi (key_less env) key
      | unordered_unique \<Rightarrow> emplace_hashed_unique (hash_place env) key
      | unordered_multi \<Rightarrow> emplace_hashed_multi (hash_place env) key)"

definition leaf_bytes :: "'o val \<Rightarrow> byte_t list" where
  "leaf_bytes dest = (case dest of Leaf b \<Rightarrow> b | Str cw b \<Rightarrow> b | _ \<Rightarrow> [])"

definition object_in :: "'o class_T \<Rightarrow> 'o val \<Rightarrow> 'o" where
  "object_in T dest = (case dest of Obj c x \<Rightarrow> x | _ \<Rightarrow> default_object T)"

definition elements :: "'o val \<Rightarrow> 'o val list" where
  "elements dest = (case dest of Tuple xs \<Rightarrow> xs | Seq k xs \<Rightarrow> xs | SetC k xs \<Rightarrow> xs | _ \<Rightarrow> [])"

definition entries :: "'o val \<Rightarrow> ('o val \<times> 'o val) list" where
  "entries dest = (case dest of MapC k es \<Rightarrow> es | _ \<Rightarrow> [])"

definition underlying :: "'o val \<Rightarrow> 'o val \<Rightarrow> 'o val" where
  "underlying dflt dest = (case dest of Adapter k c \<Rightarrow> c | _ \<Rightarrow> dflt)"

fun op_read :: "'o env \<Rightarrow> ty \<Rightarrow> 'o val \<Rightarrow> stream \<Rightarrow> 'o val \<times> stream"
  and read_slots :: "'o env \<Rightarrow> ty list \<Rightarrow> 'o val list \<Rightarrow> stream \<Rightarrow> 'o val list \<times> stream" where
  "op_read env (TLeaf n) dest d =
     (let (b, d') = Deserialise (trivial_class n) (leaf_bytes dest) d in (Leaf b, d'))"
| "op_read env (TObj c) dest d =
     (let (x, d') = Deserialise (class_of env c) (object_in (class_of env c) dest) d
      in (Obj c x, d'))"
| "op_read env (TStr cw) dest d =
     (let (chars, d') = DeserialiseAsContainer_basic_string cw (leaf_bytes dest) d
      in (Str cw chars, d'))"
| "op_read env (TTuple ts) dest d =
     (let (slots, d') = read_slots env ts (elements dest) d in (Tuple slots, d'))"
| "op_read env (TSeq k n t) dest d =
     (let dflt = default_val (class_of env) t;
          (c, d') =
            (case k of
               c_array \<Rightarrow> DeserialiseAsContainer_array (\<lambda>x u. op_read env t x u) (elements dest) d
             | std_array \<Rightarrow> DeserialiseAsContainer_array (\<lambda>x u. op_read env t x u) (elements dest) d
             | std_vector \<Rightarrow>
                 DeserialiseAsContainer_vector (\<lambda>x u. op_read env t x u) dflt (elements dest) d
             | std_deque \<Rightarrow>
                 DeserialiseAsContainer_vector (\<lambda>x u. op_read env t x u) dflt (elements dest) d
             | std_list \<Rightarrow>
                 DeserialiseAsContainer_list (\<lambda>x u. op_read env t x u) dflt (elements dest) d
             | std_forward_list \<Rightarrow>
                 DeserialiseAsContainer_forward_list (\<lambda>x u. op_read env t x u) dflt
                   (elements dest) d)
      in (Seq k c, d'))"
| "op_read env (TAdapter k t) dest d =
     (let c = underlying (default_val (class_of env) t) dest;
          (c', d') =
            (if k = std_priority_queue
             then DeserialiseAsContainer_priority_queue (\<lambda>x u. op_read env t x u) c d
             else op_read env t c d)
      in (Adapter k c', d'))"
| "op_read env (TMap k tk tv) dest d =
     (let (es, d') =
        DeserialiseAsContainer_map (emplace env k fst)
          (\<lambda>x u. op_read env tk x u) (\<lambda>x u. op_read env tv x u)
          (default_val (class_of env) tk) (default_val (class_of env) tv) (entries dest) d
      in (MapC k es, d'))"
| "op_read env (TSet k t) dest d =
     (let (xs, d') =
        DeserialiseAsContainer_set (emplace env k (\<lambda>x. x))
          (\<lambda>x u. op_read env t x u) (default_val (class_of env) t) (elements dest) d
      in (SetC k xs, d'))"
| "read_slots env [] slots d = ([], d)"
| "read_slots env (t # ts) slots d =
     (let slot = (case slots of [] \<Rightarrow> default_val (class_of env) t | x # rest \<Rightarrow> x);
          (x, d1) = op_read env t slot d;
          (xs, d2) = read_slots env ts (tl slots) d1
      in (x # xs, d2))"

fun encode :: "(class_id \<Rightarrow> 'o \<Rightarrow> byte_t list) \<Rightarrow> 'o val \<Rightarrow> byte_t list" where
  "encode enc (Leaf b) = b"
| "encode enc (Obj c x) = enc c x"
| "encode enc (Str cw chars) =
     size_t_repr (of_nat (length chars div cw)) @
     take (unat (of_nat cw * (of_nat (length chars div cw) :: 64 word))) chars"
| "encode enc (Tuple slots) = concat (map (encode enc) slots)"
| "encode enc (Seq k xs) = size_t_repr (of_nat (length xs)) @ concat (map (encode enc) xs)"
| "encode enc (Adapter k c) = encode enc c"
| "encode enc (MapC k es) =
     size_t_repr (of_nat (length es)) @
     concat (map (\<lambda>e. encode enc (fst e) @ encode enc (snd e)) es)"
| "encode enc (SetC k xs) = size_t_repr (of_nat (length xs)) @ concat (map (encode enc) xs)"

fun all_objects :: "(class_id \<Rightarrow> 'o \<Rightarrow> bool) \<Rightarrow> 'o val \<Rightarrow> bool" where
  "all_objects P (Leaf b) = True"
| "all_objects P (Obj c x) = P c x"
| "all_objects P (Str cw chars) = True"
| "all_objects P (Tuple slots) = list_all (all_objects P) slots"
| "all_objects P (Seq k xs) = list_all (all_objects P) xs"
| "all_objects P (Adapter k c) = all_objects P c"
| "all_objects P (MapC k es) = list_all (\<lambda>e. all_objects P (fst e) \<and> all_objects P (snd e)) es"
| "all_objects P (SetC k xs) = list_all (all_objects P) xs"

text \<open>
  What the three operations do with one object, hooks included, relative to a byte
  sequence \<open>e x\<close> fixed by the object \<open>x\<close> as it is before the operation.
  \<open>writes_as\<close>: \<^verbatim>\<open>Serialise\<close> (before-hook, then core hook or raw copy) puts
  \<open>e x\<close> at the cursor and does nothing else to the Serialiser; the object may
  come back changed by its lifecycle hooks. \<open>sizes_as\<close>: \<^verbatim>\<open>SizeOf\<close> adds the
  length of \<open>e x\<close> to the total. \<open>reads_as\<close>: \<^verbatim>\<open>Deserialise\<close> (before-hook,
  core hook or raw copy, after-hook) into a value-initialised object, started where
  \<open>e x\<close> lies, consumes exactly these bytes and returns \<open>x\<close>.
\<close>

definition writes_as :: "'o class_T \<Rightarrow> ('o \<Rightarrow> byte_t list) \<Rightarrow> 'o \<Rightarrow> bool" where
  "writes_as T e x = (\<forall>s. snd (Serialise T x s) = SerialiseAsMemory (e x) s)"

definition sizes_as :: "'o class_T \<Rightarrow> ('o \<Rightarrow> byte_t list) \<Rightarrow> 'o \<Rightarrow> bool" where
  "sizes_as T e x = (\<forall>z. SizeOf T x z = AddSizeOfMemory (of_nat (length (e x))) z)"



fun variable_length :: "'o val \<Rightarrow> bool" where
  "variable_length (Str cw chars) = True"
| "variable_length (Seq k xs) = (k \<noteq> c_array \<and> k \<noteq> std_array)"
| "variable_length (MapC k es) = True"
| "variable_length (SetC k xs) = True"
| "variable_length v = False"

fun element_count :: "'o val \<Rightarrow> nat" where
  "element_count (Str cw chars) = length chars div cw"
| "element_count (Seq k xs) = length xs"
| "element_count (MapC k es) = length es"
| "element_count (SetC k xs) = length xs"
| "element_count v = 0"

fun write_elements :: "(class_id \<Rightarrow> 'o class_T) \<Rightarrow> 'o val \<Rightarrow> stream \<Rightarrow> stream" where
  "write_elements ct (Str cw chars) s =
     SerialiseAsMemory (take (unat (of_nat cw * (of_nat (length chars div cw) :: 64 word))) chars) s"
| "write_elements ct (Seq k xs) s = snd (for_each (op_write ct) xs s)"
| "write_elements ct (MapC k es) s =
     snd (for_each (Variadic_pair (op_write ct) (op_write ct)) es s)"
| "write_elements ct (SetC k xs) s = snd (for_each (op_write ct) xs s)"
| "write_elements ct v s = s"

text \<open>
  A stream follows another when it has the same start pointer and its cursor is not
  behind. A class has forward hooks when its core hooks leave the context they are
  handed in a state that follows the one they found, as every operation of the
  context's public interface does.
\<close>

definition follows :: "stream \<Rightarrow> stream \<Rightarrow> bool" where
  "follows s s' = (m_Data s' = m_Data s \<and> m_Head s \<le> m_Head s')"

definition forward_hooks :: "'o class_T \<Rightarrow> bool" where
  "forward_hooks T =
     ((\<forall>hook x s. OnSerialise T = Some hook \<longrightarrow> follows s (hook x s)) \<and>
      (\<forall>hook x d. OnDeserialise T = Some hook \<longrightarrow> follows d (snd (hook x d))))"





text \<open>
  The unique-key \<^verbatim>\<open>emplace\<close> operations: the hashed one, and the ordered one on a
  container sorted by a strict linear comparison of the keys. \<open>entry_of key c k\<close>
  is the first element of \<open>c\<close> whose key is \<open>k\<close>. \<open>read_byte\<close> is an element
  functor that reads one byte as a number.
\<close>

definition strict_linear :: "('k \<Rightarrow> 'k \<Rightarrow> bool) \<Rightarrow> bool" where
  "strict_linear lt =
     ((\<forall>a. \<not> lt a a) \<and> (\<forall>a b c. lt a b \<longrightarrow> lt b c \<longrightarrow> lt a c) \<and>
      (\<forall>a b. a = b \<or> lt a b \<or> lt b a))"

definition unique_emplace :: "('e \<Rightarrow> 'e list \<Rightarrow> 'e list) \<Rightarrow> ('e \<Rightarrow> 'k) \<Rightarrow> 'e list \<Rightarrow> bool" where
  "unique_emplace emp key c =
     ((\<exists>place. emp = emplace_hashed_unique place key) \<or>
      (\<exists>lt. emp = emplace_unique lt key \<and> strict_linear lt \<and> sorted_wrt lt (map key c)))"

fun entry_of :: "('e \<Rightarrow> 'k) \<Rightarrow> 'e list \<Rightarrow> 'k \<Rightarrow> 'e option" where
  "entry_of key [] k = None"
| "entry_of key (e # es) k = (if key e = k then Some e else entry_of key es k)"


definition read_byte :: "nat \<Rightarrow> stream \<Rightarrow> nat \<times> stream" where
  "read_byte x d = (let (bs, d') = DeserialiseAsMemory 1 d in (le_value bs, d'))"







section \<open>An exception leaving an element functor\<close>

text \<open>
  The source handles no exception, so one thrown by an element functor (a user's
  functor, or a hook of the element type) propagates through the container overload.
  Here a functor returns \<open>None\<close> when it throws, and an adapter overload returns
  the state its caller's adapter is left in together with the outcome. The
  \<^verbatim>\<open>priority_queue\<close> overload moves the queue into \<^verbatim>\<open>Helper\<close> first, which
  leaves the moved-from queue empty; the move back is the statement after the
  traversal, reached only when the traversal returns. \<open>throws_on bad f\<close> is the
  functor that throws on the element \<open>bad\<close> and runs \<open>f\<close> on every other.
\<close>

fun for_each_throwing ::
  "('a \<Rightarrow> 's \<Rightarrow> ('a \<times> 's) option) \<Rightarrow> 'a list \<Rightarrow> 's \<Rightarrow> ('a list \<times> 's) option" where
  "for_each_throwing a_Functor [] s = Some ([], s)"
| "for_each_throwing a_Functor (Object # rest) s =
     (case a_Functor Object s of
        None \<Rightarrow> None
      | Some (Object', s1) \<Rightarrow>
          (case for_each_throwing a_Functor rest s1 of
             None \<Rightarrow> None
           | Some (rest', s2) \<Rightarrow> Some (Object' # rest', s2)))"

definition SerialiseAsContainer_sized_throwing ::
  "('a \<Rightarrow> stream \<Rightarrow> ('a \<times> stream) option) \<Rightarrow> 'a list \<Rightarrow> stream \<Rightarrow> ('a list \<times> stream) option" where
  "SerialiseAsContainer_sized_throwing a_Functor a_Container s =
     (let Size = (of_nat (length a_Container) :: 64 word);
          s1 = SerialiseAsMemory (size_t_repr Size) s
      in for_each_throwing a_Functor a_Container s1)"

definition SerialiseAsContainer_priority_queue_throwing ::
  "('a \<Rightarrow> stream \<Rightarrow> ('a \<times> stream) option) \<Rightarrow> 'a list \<Rightarrow> stream \<Rightarrow> 'a list \<times> stream option" where
  "SerialiseAsContainer_priority_queue_throwing a_Functor a_Container s =
     (let Helper = a_Container;
          a_Container1 = []
      in case SerialiseAsContainer_sized_throwing a_Functor Helper s of
           None \<Rightarrow> (a_Container1, None)
         | Some (Heap, s1) \<Rightarrow> (Heap, Some s1))"

definition SerialiseAsContainer_queue_throwing ::
  "('a \<Rightarrow> stream \<Rightarrow> ('a \<times> stream) option) \<Rightarrow> 'a list \<Rightarrow> stream \<Rightarrow> 'a list \<times> stream option" where
  "SerialiseAsContainer_queue_throwing a_Functor a_Container s =
     (case SerialiseAsContainer_sized_throwing a_Functor a_Container s of
        None \<Rightarrow> (a_Container, None)
      | Some (c, s1) \<Rightarrow> (c, Some s1))"

definition throws_on :: "'a \<Rightarrow> ('a \<Rightarrow> 's \<Rightarrow> 'a \<times> 's) \<Rightarrow> 'a \<Rightarrow> 's \<Rightarrow> ('a \<times> 's) option" where
  "throws_on bad f x s = (if x = bad then None else Some (f x s))"

text \<open>
  The same for \<^verbatim>\<open>Sizer::AddSizeOfContainer\<close>: the overload for the sequence
  containers, the \<^verbatim>\<open>priority_queue\<close> overload, which moves the measured queue
  into \<^verbatim>\<open>Helper\<close> and back, and the \<^verbatim>\<open>queue\<close> overload, which passes the
  underlying container on. \<open>Sizer_DefaultFunctor\<close> is the Sizer's default element
  functor, \<^verbatim>\<open>a_Sizer + a_Object\<close>, on an element of a type with no hook.
\<close>

definition AddSizeOfContainer_sized_throwing ::
  "('a \<Rightarrow> sizer \<Rightarrow> ('a \<times> sizer) option) \<Rightarrow> 'a list \<Rightarrow> sizer \<Rightarrow> ('a list \<times> sizer) option" where
  "AddSizeOfContainer_sized_throwing a_Functor a_Container z =
     (let z1 = AddSizeOfMemory (of_nat sizeof_size_t) z
      in for_each_throwing a_Functor a_Container z1)"

definition AddSizeOfContainer_priority_queue_throwing ::
  "('a \<Rightarrow> sizer \<Rightarrow> ('a \<times> sizer) option) \<Rightarrow> 'a list \<Rightarrow> sizer \<Rightarrow> 'a list \<times> sizer option" where
  "AddSizeOfContainer_priority_queue_throwing a_Functor a_Container z =
     (let Helper = a_Container;
          a_Container1 = []
      in case AddSizeOfContainer_sized_throwing a_Functor Helper z of
           None \<Rightarrow> (a_Container1, None)
         | Some (Heap, z1) \<Rightarrow> (Heap, Some z1))"

definition AddSizeOfContainer_queue_throwing ::
  "('a \<Rightarrow> sizer \<Rightarrow> ('a \<times> sizer) option) \<Rightarrow> 'a list \<Rightarrow> sizer \<Rightarrow> 'a list \<times> sizer option" where
  "AddSizeOfContainer_queue_throwing a_Functor a_Container z =
     (case AddSizeOfContainer_sized_throwing a_Functor a_Container z of
        None \<Rightarrow> (a_Container, None)
      | Some (c, z1) \<Rightarrow> (c, Some z1))"

definition Sizer_DefaultFunctor :: "nat \<Rightarrow> byte_t list \<Rightarrow> sizer \<Rightarrow> byte_t list \<times> sizer" where
  "Sizer_DefaultFunctor n a_Object a_Sizer = (a_Object, SizeOf (trivial_class n) a_Object a_Sizer)"

section \<open>Example types\<close>

definition no_hooks :: "nat \<Rightarrow> ('o \<Rightarrow> byte_t list) \<Rightarrow> (byte_t list \<Rightarrow> 'o) \<Rightarrow> 'o \<Rightarrow> 'o class_T" where
  "no_hooks n repr unrepr dflt =
     \<lparr>sizeof_T = n, object_repr = repr, object_of_repr = unrepr, default_object = dflt,
      OnBeforeSerialise = None, OnSerialise = None, OnAfterSerialise = None, OnSize = None,
      OnBeforeDeserialise = None, OnDeserialise = None, OnAfterDeserialise = None\<rparr>"

definition plain_classes :: "class_id \<Rightarrow> unit class_T" where
  "plain_classes c = no_hooks 1 (\<lambda>x. [0]) (\<lambda>bs. ()) ()"

definition plain_enc :: "class_id \<Rightarrow> unit \<Rightarrow> byte_t list" where
  "plain_enc c x = [0]"

definition plain_env :: "unit env" where
  "plain_env = \<lparr>class_of = plain_classes, key_less = (\<lambda>a b. le_value (leaf_bytes a) < le_value (leaf_bytes b)),
      hash_place = (\<lambda>x c. 0)\<rparr>"

definition ExampleStruct_members :: "ty list" where
  "ExampleStruct_members = [TStr 1, TLeaf 4, TLeaf 4, TSeq std_vector 0 (TLeaf 4)]"

definition ExampleStruct :: "unit val list class_T" where
  "ExampleStruct =
     (no_hooks 72 (\<lambda>x. replicate 72 0) (\<lambda>bs. [Leaf bs])
        (map (default_val plain_classes) ExampleStruct_members))
     \<lparr>OnSerialise := Some (\<lambda>x s. snd (for_each (op_write plain_classes) x s)),
      OnSize := Some (\<lambda>x z. snd (for_each (op_measure plain_classes) x z)),
      OnDeserialise := Some (\<lambda>x d. read_slots plain_env ExampleStruct_members x d)\<rparr>"

definition EncodeOnly :: "unit val list class_T" where
  "EncodeOnly =
     (no_hooks 32 (\<lambda>x. replicate 32 0) (\<lambda>bs. [Leaf bs]) [Str 1 []])
     \<lparr>OnSerialise := Some (\<lambda>x s. snd (for_each (op_write plain_classes) x s))\<rparr>"

definition example_classes :: "class_id \<Rightarrow> unit val list class_T" where
  "example_classes c = (if c = 0 then ExampleStruct else EncodeOnly)"

definition example_enc :: "class_id \<Rightarrow> unit val list \<Rightarrow> byte_t list" where
  "example_enc c x = concat (map (encode plain_enc) x)"

definition example_object :: "unit val list" where
  "example_object =
     [Str 1 [97, 98, 99], Leaf [42, 0, 0, 0], Leaf [0, 0, 192, 63],
      Seq std_vector [Leaf [1, 0, 0, 0], Leaf [2, 0, 0, 0], Leaf [3, 0, 0, 0]]]"

definition example_value :: "unit val list val" where
  "example_value =
     Tuple [Obj 0 example_object,
            Adapter std_priority_queue (Seq std_vector [Leaf [5], Leaf [3], Leaf [1]]),
            Seq std_forward_list [Leaf [7], Leaf [9]]]"



text \<open>
  Two types whose hooks do what the library does not prevent. \<open>Exclaiming\<close>
  holds a string, passes it in all three core hooks, and appends an exclamation mark
  to it in \<^verbatim>\<open>OnBeforeSerialise\<close>. The core hooks of \<open>Rewinding\<close> assign a
  fresh context to the context they are handed by reference: a Serialiser or a
  Deserialiser constructed on the start pointer of the one handed in, and a
  default-constructed Sizer.
\<close>

definition Exclaiming :: "unit val list class_T" where
  "Exclaiming =
     (no_hooks 32 (\<lambda>x. replicate 32 0) (\<lambda>bs. [Leaf bs]) [Str 1 []])
     \<lparr>OnBeforeSerialise :=
        Some (map (\<lambda>member. case member of Str cw chars \<Rightarrow> Str cw (chars @ [33]) | _ \<Rightarrow> member)),
      OnSerialise := Some (\<lambda>x s. snd (for_each (op_write plain_classes) x s)),
      OnSize := Some (\<lambda>x z. snd (for_each (op_measure plain_classes) x z)),
      OnDeserialise := Some (\<lambda>x d. read_slots plain_env [TStr 1] x d)\<rparr>"




section \<open>Facts about the traversals\<close>

lemma AddSizeOfMemory_add:
  "AddSizeOfMemory b (AddSizeOfMemory a z) = AddSizeOfMemory (a + b) z"
  by (simp add: AddSizeOfMemory_def add.assoc)

lemma AddSizeOfMemory_0 [simp]: "AddSizeOfMemory 0 z = z"
  by (simp add: AddSizeOfMemory_def)

lemma for_each_writes:
  "(\<And>x s. x \<in> set xs \<Longrightarrow> snd (f x s) = SerialiseAsMemory (e x) s) \<Longrightarrow>
     snd (for_each f xs s) = SerialiseAsMemory (concat (map e xs)) s"
  by (induction xs arbitrary: s) (simp_all add: SerialiseAsMemory_append split_beta)

lemma for_each_sizes:
  "(\<And>x z. x \<in> set xs \<Longrightarrow> f x z = (x, AddSizeOfMemory (of_nat (length (e x))) z)) \<Longrightarrow>
     for_each f xs z = (xs, AddSizeOfMemory (of_nat (length (concat (map e xs)))) z)"
  by (induction xs arbitrary: z) (simp_all add: AddSizeOfMemory_add)

lemma Variadic_pair_writes:
  "(\<And>s. snd (f (fst p) s) = SerialiseAsMemory (e1 (fst p)) s) \<Longrightarrow>
   (\<And>s. snd (g (snd p) s) = SerialiseAsMemory (e2 (snd p)) s) \<Longrightarrow>
     snd (Variadic_pair f g p s) = SerialiseAsMemory (e1 (fst p) @ e2 (snd p)) s"
  by (simp add: Variadic_pair_def SerialiseAsMemory_append split_beta)

lemma Variadic_pair_sizes:
  "(\<And>z. f (fst p) z = (fst p, AddSizeOfMemory (of_nat (length (e1 (fst p)))) z)) \<Longrightarrow>
   (\<And>z. g (snd p) z = (snd p, AddSizeOfMemory (of_nat (length (e2 (snd p)))) z)) \<Longrightarrow>
     Variadic_pair f g p z = (p, AddSizeOfMemory (of_nat (length (e1 (fst p) @ e2 (snd p)))) z)"
  by (simp add: Variadic_pair_def AddSizeOfMemory_add)

lemma op_write_encode:
  "all_objects (\<lambda>c x. writes_as (ct c) (enc c) x) v \<Longrightarrow>
     snd (op_write ct v s) = SerialiseAsMemory (encode enc v) s"
proof (induction ct v s rule: op_write.induct)
  case (1 ct b s)
  show ?case by (simp add: split_beta)
next
  case (2 ct c x s)
  then show ?case by (simp add: writes_as_def split_beta)
next
  case (3 ct cw chars s)
  show ?case
    by (simp add: SerialiseAsContainer_basic_string_def SerialiseAsMemory_append Let_def)
next
  case (4 ct slots s)
  have "snd (for_each (op_write ct) slots s) = SerialiseAsMemory (concat (map (encode enc) slots)) s"
    using 4 by (intro for_each_writes) (simp add: list_all_iff)
  then show ?case by (simp add: split_beta)
next
  case (5 ct k xs s)
  have "snd (for_each (op_write ct) xs u) = SerialiseAsMemory (concat (map (encode enc) xs)) u" for u
    using 5 by (intro for_each_writes) (auto simp: list_all_iff)
  then show ?case
    by (simp add: SerialiseAsContainer_forward_list_def SerialiseAsContainer_sized_def
          ptrdiff_t_repr_int SerialiseAsMemory_append split_beta)
next
  case (6 ct k c s)
  then show ?case
    by (simp add: SerialiseAsContainer_priority_queue_def split_beta)
next
  case (7 ct k es s)
  have "snd (for_each (Variadic_pair (op_write ct) (op_write ct)) es u) =
          SerialiseAsMemory (concat (map (\<lambda>e. encode enc (fst e) @ encode enc (snd e)) es)) u" for u
    using 7 by (intro for_each_writes Variadic_pair_writes) (auto simp: list_all_iff)
  then show ?case
    by (simp add: SerialiseAsContainer_sized_def SerialiseAsMemory_append split_beta)
next
  case (8 ct k xs s)
  have "snd (for_each (op_write ct) xs u) = SerialiseAsMemory (concat (map (encode enc) xs)) u" for u
    using 8 by (intro for_each_writes) (auto simp: list_all_iff)
  then show ?case
    by (simp add: SerialiseAsContainer_sized_def SerialiseAsMemory_append split_beta)
qed

lemma unat_mult_le: "unat (of_nat a * of_nat b :: 64 word) \<le> a * b"
proof -
  have "unat (of_nat a * of_nat b :: 64 word) = (a * b) mod 2 ^ 64"
    by (simp add: unat_of_nat flip: of_nat_mult)
  then show ?thesis by simp
qed

lemma length_string_data:
  "min (length chars) (unat (of_nat cw * (of_nat (length chars div cw) :: 64 word))) =
     unat (of_nat cw * (of_nat (length chars div cw) :: 64 word))"
proof -
  have "cw * (length chars div cw) \<le> length chars"
    by simp
  then have "unat (of_nat cw * (of_nat (length chars div cw) :: 64 word)) \<le> length chars"
    using unat_mult_le [of cw "length chars div cw"] by linarith
  then show ?thesis
    by (simp add: min_absorb2)
qed

lemma op_measure_encode:
  "all_objects (\<lambda>c x. sizes_as (ct c) (enc c) x) v \<Longrightarrow>
     op_measure ct v z = (v, AddSizeOfMemory (of_nat (length (encode enc v))) z)"
proof (induction ct v z rule: op_measure.induct)
  case (1 ct b z)
  show ?case by simp
next
  case (2 ct c x z)
  then show ?case by (simp add: sizes_as_def)
next
  case (3 ct cw chars z)
  show ?case
    by (simp add: AddSizeOfContainer_basic_string_def AddSizeOfMemory_add length_string_data)
next
  case (4 ct slots z)
  have "for_each (op_measure ct) slots z =
          (slots, AddSizeOfMemory (of_nat (length (concat (map (encode enc) slots)))) z)"
    using 4 by (intro for_each_sizes) (simp add: list_all_iff)
  then show ?case by simp
next
  case (5 ct k xs z)
  have "for_each (op_measure ct) xs u =
          (xs, AddSizeOfMemory (of_nat (length (concat (map (encode enc) xs)))) u)" for u
    using 5 by (intro for_each_sizes) (auto simp: list_all_iff)
  then show ?case
    by (simp add: AddSizeOfContainer_forward_list_def AddSizeOfContainer_sized_def
          AddSizeOfMemory_add sizeof_ptrdiff_t_def sizeof_size_t_def)
next
  case (6 ct k c z)
  then show ?case
    by (simp add: AddSizeOfContainer_priority_queue_def)
next
  case (7 ct k es z)
  have "for_each (Variadic_pair (op_measure ct) (op_measure ct)) es u =
          (es, AddSizeOfMemory (of_nat (length (concat
             (map (\<lambda>e. encode enc (fst e) @ encode enc (snd e)) es)))) u)" for u
    using 7 by (intro for_each_sizes Variadic_pair_sizes) (auto simp: list_all_iff)
  then show ?case
    by (simp add: AddSizeOfContainer_map_def AddSizeOfMemory_add sizeof_size_t_def)
next
  case (8 ct k xs z)
  have "for_each (op_measure ct) xs u =
          (xs, AddSizeOfMemory (of_nat (length (concat (map (encode enc) xs)))) u)" for u
    using 8 by (intro for_each_sizes) (auto simp: list_all_iff)
  then show ?case
    by (simp add: AddSizeOfContainer_sized_def AddSizeOfMemory_add sizeof_size_t_def)
qed

lemma for_each_fst:
  "(\<And>x u. x \<in> set xs \<Longrightarrow> fst (f x u) = x) \<Longrightarrow> fst (for_each f xs s) = xs"
proof (induction xs arbitrary: s)
  case Nil
  show ?case by simp
next
  case (Cons x xs)
  obtain x' s1 where fx: "f x s = (x', s1)" by (cases "f x s")
  have "x' = x" using Cons.prems [of x s] fx by simp
  moreover have "fst (for_each f xs s1) = xs"
    using Cons.IH [of s1] Cons.prems by simp
  ultimately show ?case
    by (cases "for_each f xs s1") (simp add: fx)
qed

lemma Variadic_pair_fst:
  "(\<And>u. fst (f (fst p) u) = fst p) \<Longrightarrow> (\<And>u. fst (g (snd p) u) = snd p) \<Longrightarrow>
     fst (Variadic_pair f g p s) = p"
proof -
  assume f: "\<And>u. fst (f (fst p) u) = fst p" and g: "\<And>u. fst (g (snd p) u) = snd p"
  obtain x s1 where fx: "f (fst p) s = (x, s1)" by (cases "f (fst p) s")
  obtain y s2 where gy: "g (snd p) s1 = (y, s2)" by (cases "g (snd p) s1")
  have "x = fst p" using f [of s] fx by simp
  moreover have "y = snd p" using g [of s1] gy by simp
  ultimately show ?thesis
    by (simp add: Variadic_pair_def fx gy)
qed

text \<open>
  A measure that returns hands back the value it was given: the element functors take
  the elements by const reference, and the \<^verbatim>\<open>priority_queue\<close> overload has moved
  the queue back. A measure left by an exception is another matter, treated with the
  throwing overloads.
\<close>

lemma op_measure_value: "fst (op_measure ct v z) = v"
proof (induction ct v z rule: op_measure.induct)
  case (1 ct b z)
  show ?case by simp
next
  case (2 ct c x z)
  show ?case by simp
next
  case (3 ct cw chars z)
  show ?case by simp
next
  case (4 ct slots z)
  have "fst (for_each (op_measure ct) slots z) = slots"
    using 4 by (intro for_each_fst) simp
  then show ?case by (simp add: split_beta)
next
  case (5 ct k xs z)
  have "fst (for_each (op_measure ct) xs u) = xs" for u
    using 5 by (intro for_each_fst) auto
  then show ?case
    by (simp add: AddSizeOfContainer_forward_list_def AddSizeOfContainer_sized_def split_beta)
next
  case (6 ct k c z)
  then show ?case
    by (simp add: AddSizeOfContainer_priority_queue_def split_beta)
next
  case (7 ct k es z)
  have "fst (for_each (Variadic_pair (op_measure ct) (op_measure ct)) es u) = es" for u
    using 7 by (intro for_each_fst Variadic_pair_fst) auto
  then show ?case
    by (simp add: AddSizeOfContainer_map_def split_beta)
next
  case (8 ct k xs z)
  have "fst (for_each (op_measure ct) xs u) = xs" for u
    using 8 by (intro for_each_fst) auto
  then show ?case
    by (simp add: AddSizeOfContainer_sized_def split_beta)
qed

lemma plain_writes: "writes_as (plain_classes c) (plain_enc c) x"
  by (simp add: writes_as_def plain_classes_def plain_enc_def no_hooks_def Serialise_def)

lemma plain_sizes: "sizes_as (plain_classes c) (plain_enc c) x"
  by (simp add: sizes_as_def plain_classes_def plain_enc_def no_hooks_def SizeOf_def)

lemma all_objects_True: "(\<And>c x. P c x) \<Longrightarrow> all_objects P v"
  by (induction P v rule: all_objects.induct) (auto simp: list_all_iff)

lemma ExampleStruct_writes: "writes_as (example_classes 0) (example_enc 0) x"
proof -
  have "snd (for_each (op_write plain_classes) x s) =
          SerialiseAsMemory (concat (map (encode plain_enc) x)) s" for s
    by (intro for_each_writes op_write_encode all_objects_True plain_writes)
  then show ?thesis
    by (simp add: writes_as_def example_classes_def ExampleStruct_def example_enc_def
          no_hooks_def Serialise_def)
qed

lemma ExampleStruct_sizes: "sizes_as (example_classes 0) (example_enc 0) x"
proof -
  have "for_each (op_measure plain_classes) x z =
          (x, AddSizeOfMemory (of_nat (length (concat (map (encode plain_enc) x)))) z)" for z
    by (intro for_each_sizes op_measure_encode all_objects_True plain_sizes)
  then show ?thesis
    by (simp add: sizes_as_def example_classes_def ExampleStruct_def example_enc_def
          no_hooks_def SizeOf_def)
qed



lemma encode_header:
  "variable_length v \<Longrightarrow>
     take sizeof_size_t (encode enc v) = size_t_repr (of_nat (element_count v))"
  by (cases v) simp_all

lemma le_bytes_8:
  "le_bytes 8 n = [of_nat (n mod 256), of_nat (n div 256 mod 256), of_nat (n div 256 div 256 mod 256),
      of_nat (n div 256 div 256 div 256 mod 256), of_nat (n div 256 div 256 div 256 div 256 mod 256),
      of_nat (n div 256 div 256 div 256 div 256 div 256 mod 256),
      of_nat (n div 256 div 256 div 256 div 256 div 256 div 256 mod 256),
      of_nat (n div 256 div 256 div 256 div 256 div 256 div 256 div 256 mod 256)]"
proof -
  have "(8::nat) = Suc (Suc (Suc (Suc (Suc (Suc (Suc (Suc 0)))))))"
    by simp
  then show ?thesis
    by (simp only: le_bytes.simps)
qed

lemma follows_refl [simp]: "follows s s"
  by (simp add: follows_def)

lemma follows_trans: "follows a b \<Longrightarrow> follows b c \<Longrightarrow> follows a c"
  by (auto simp: follows_def)


lemma follows_DeserialiseAsMemory [simp]: "follows d (snd (DeserialiseAsMemory n d))"
  by (simp add: follows_def DeserialiseAsMemory_def)

lemma follows_read_size_t [simp]: "follows d (snd (read_size_t d))"
  by (simp add: follows_def read_size_t_def DeserialiseAsMemory_def)



lemma forward_hooks_trivial [simp]: "forward_hooks (trivial_class n)"
  by (simp add: forward_hooks_def trivial_class_def)









lemma follows_basic_string [simp]:
  "follows d (snd (DeserialiseAsContainer_basic_string cw c d))"
  using follows_trans [OF follows_read_size_t follows_DeserialiseAsMemory]
  by (simp add: DeserialiseAsContainer_basic_string_def split_beta Let_def)




lemma AddSizeOfMemory_mono:
  "unat (m_Size z) + unat a < 2 ^ 64 \<Longrightarrow> m_Size z \<le> m_Size (AddSizeOfMemory a z)"
proof -
  assume "unat (m_Size z) + unat a < 2 ^ 64"
  then have "unat (m_Size z + a) = unat (m_Size z) + unat a"
    by (simp add: unat_word_ariths)
  then show ?thesis
    by (simp add: AddSizeOfMemory_def word_le_nat_alt)
qed

lemma fold_AddSizeOfMemory_mono:
  "unat (m_Size z) + sum_list (map unat sizes) < 2 ^ 64 \<Longrightarrow>
     m_Size z \<le> m_Size (fold AddSizeOfMemory sizes z) \<and>
     unat (m_Size (fold AddSizeOfMemory sizes z)) = unat (m_Size z) + sum_list (map unat sizes)"
proof (induction sizes arbitrary: z)
  case Nil
  show ?case by simp
next
  case (Cons a sizes)
  have 1: "unat (m_Size z) + unat a < 2 ^ 64"
    using Cons.prems by simp
  then have u: "unat (m_Size (AddSizeOfMemory a z)) = unat (m_Size z) + unat a"
    by (simp add: AddSizeOfMemory_def unat_word_ariths)
  have "unat (m_Size (AddSizeOfMemory a z)) + sum_list (map unat sizes) < 2 ^ 64"
    using Cons.prems u by simp
  from Cons.IH [OF this] AddSizeOfMemory_mono [OF 1] u show ?case
    by (simp add: add.assoc) (meson order_trans)
qed

lemma entry_of_append:
  "entry_of key (xs @ ys) k = (case entry_of key xs k of None \<Rightarrow> entry_of key ys k | Some e \<Rightarrow> Some e)"
  by (induction xs) simp_all

lemma entry_of_None: "entry_of key c k = None \<longleftrightarrow> k \<notin> key ` set c"
  by (induction c) auto

lemma entry_of_insert_at:
  "key x \<notin> key ` set c \<Longrightarrow> entry_of key (insert_at p x c) k = entry_of key (c @ [x]) k"
proof -
  assume n: "key x \<notin> key ` set c"
  have c: "c = take p c @ drop p c" by simp
  have nt: "key x \<notin> key ` set (take p c)" and nd: "key x \<notin> key ` set (drop p c)"
    using n by (auto dest: in_set_takeD in_set_dropD)
  show ?thesis
  proof (cases "k = key x")
    case True
    have "entry_of key (take p c) k = None" "entry_of key (drop p c) k = None" "entry_of key c k = None"
      using nt nd n True by (simp_all add: entry_of_None)
    then show ?thesis
      by (simp add: insert_at_def entry_of_append True)
  next
    case False
    have "entry_of key c k = entry_of key (take p c @ drop p c) k" by simp
    then show ?thesis
      using False
      by (simp only: insert_at_def entry_of_append) (simp split: option.splits)
  qed
qed

lemma emplace_hashed_unique_entry:
  "entry_of key (emplace_hashed_unique place key x c) k = entry_of key (c @ [x]) k"
proof (cases "key x \<in> key ` set c")
  case True
  then have "entry_of key c (key x) \<noteq> None"
    by (simp add: entry_of_None)
  then show ?thesis
    using True by (auto simp: emplace_hashed_unique_def entry_of_append split: option.splits)
next
  case False
  then show ?thesis
    by (simp add: emplace_hashed_unique_def entry_of_insert_at)
qed

lemma emplace_hashed_unique_distinct:
  "distinct (map key c) \<Longrightarrow> distinct (map key (emplace_hashed_unique place key x c))"
proof -
  assume d: "distinct (map key c)"
  have "distinct (map key (take p c @ x # drop p c))" if n: "key x \<notin> key ` set c" for p
  proof -
    have "distinct (map key (take p c @ drop p c))" using d by simp
    moreover have "key x \<notin> key ` set (take p c)" "key x \<notin> key ` set (drop p c)"
      using n by (auto dest: in_set_takeD in_set_dropD)
    ultimately show ?thesis by (simp del: append_take_drop_id)
  qed
  then show ?thesis
    using d by (auto simp: emplace_hashed_unique_def insert_at_def)
qed

lemma emplace_unique_sorted:
  "strict_linear lt \<Longrightarrow> sorted_wrt lt (map key c) \<Longrightarrow>
     sorted_wrt lt (map key (emplace_unique lt key x c)) \<and>
     set (emplace_unique lt key x c) \<subseteq> insert x (set c)"
proof (induction c)
  case Nil
  show ?case by simp
next
  case (Cons y ys)
  have tr: "\<And>a b c. lt a b \<Longrightarrow> lt b c \<Longrightarrow> lt a c"
    using Cons.prems(1) unfolding strict_linear_def by blast
  have IH: "sorted_wrt lt (map key (emplace_unique lt key x ys))"
      "set (emplace_unique lt key x ys) \<subseteq> insert x (set ys)"
    using Cons by simp_all
  show ?case
  proof (cases "lt (key x) (key y)")
    case True
    then show ?thesis
      using Cons.prems(2) tr by auto
  next
    case nxy: False
    show ?thesis
    proof (cases "lt (key y) (key x)")
      case True
      have "\<forall>e \<in> set (emplace_unique lt key x ys). lt (key y) (key e)"
        using IH(2) True Cons.prems(2) by auto
      then show ?thesis
        using nxy True IH by auto
    next
      case False
      then show ?thesis
        using nxy Cons.prems(2) by auto
    qed
  qed
qed

lemma emplace_unique_entry:
  "strict_linear lt \<Longrightarrow> sorted_wrt lt (map key c) \<Longrightarrow>
     entry_of key (emplace_unique lt key x c) k = entry_of key (c @ [x]) k"
proof (induction c)
  case Nil
  show ?case by simp
next
  case (Cons y ys)
  have irr: "\<And>a. \<not> lt a a" and tr: "\<And>a b c. lt a b \<Longrightarrow> lt b c \<Longrightarrow> lt a c"
    and tot: "\<And>a b. a = b \<or> lt a b \<or> lt b a"
    using Cons.prems(1) unfolding strict_linear_def by blast+
  have IH: "entry_of key (emplace_unique lt key x ys) k = entry_of key (ys @ [x]) k"
    using Cons by simp
  show ?case
  proof (cases "lt (key x) (key y)")
    case True
    have "key x \<noteq> key e" if "e \<in> set (y # ys)" for e
    proof -
      have "lt (key x) (key e)"
        using that True Cons.prems(2) tr by auto
      then show ?thesis using irr by metis
    qed
    then have "key x \<notin> key ` set (y # ys)" by blast
    then show ?thesis
      using True entry_of_insert_at [of key x "y # ys" 0 k] by (simp add: insert_at_def)
  next
    case nxy: False
    show ?thesis
    proof (cases "lt (key y) (key x)")
      case True
      then show ?thesis
        using nxy IH by simp
    next
      case False
      then have "key x = key y"
        using nxy tot by blast
      then show ?thesis
        using nxy False by (simp add: entry_of_append split: option.splits)
    qed
  qed
qed

lemma sorted_wrt_distinct: "(\<And>a. \<not> lt a a) \<Longrightarrow> sorted_wrt lt xs \<Longrightarrow> distinct xs"
  by (induction xs) auto

lemma unique_emplace_step:
  assumes "unique_emplace emp key c"
  shows "unique_emplace emp key (emp x c)"
    and "entry_of key (emp x c) k = entry_of key (c @ [x]) k"
    and "distinct (map key c) \<longrightarrow> distinct (map key (emp x c))"
proof -
  consider (hashed) place where "emp = emplace_hashed_unique place key"
    | (ordered) lt where "emp = emplace_unique lt key" "strict_linear lt" "sorted_wrt lt (map key c)"
    using assms unfolding unique_emplace_def by blast
  then have "unique_emplace emp key (emp x c) \<and>
      entry_of key (emp x c) k = entry_of key (c @ [x]) k \<and>
      (distinct (map key c) \<longrightarrow> distinct (map key (emp x c)))"
  proof cases
    case hashed
    then show ?thesis
      by (auto simp: unique_emplace_def emplace_hashed_unique_entry emplace_hashed_unique_distinct)
  next
    case ordered
    have s: "sorted_wrt lt (map key (emplace_unique lt key x c))"
      using emplace_unique_sorted [OF ordered(2,3)] by simp
    have "\<And>a. \<not> lt a a"
      using ordered(2) unfolding strict_linear_def by blast
    then have "distinct (map key (emplace_unique lt key x c))"
      using s by (rule sorted_wrt_distinct)
    then show ?thesis
      using ordered s by (auto simp: unique_emplace_def emplace_unique_entry)
  qed
  then show "unique_emplace emp key (emp x c)"
    and "entry_of key (emp x c) k = entry_of key (c @ [x]) k"
    and "distinct (map key c) \<longrightarrow> distinct (map key (emp x c))"
    by simp_all
qed

lemma unique_emplace_foldl:
  "unique_emplace emp key c \<Longrightarrow>
     entry_of key (foldl (\<lambda>c x. emp x c) c xs) k = entry_of key (c @ xs) k \<and>
     (distinct (map key c) \<longrightarrow> distinct (map key (foldl (\<lambda>c x. emp x c) c xs)))"
proof (induction xs arbitrary: c)
  case Nil
  show ?case by simp
next
  case (Cons x xs)
  note st = unique_emplace_step [OF Cons.prems, of x]
  have "entry_of key (emp x c @ xs) k = entry_of key (c @ x # xs) k"
    using st(2) [of k] by (simp add: entry_of_append [of key "emp x c"] entry_of_append [of key "c @ [x]" xs, simplified])
  then show ?case
    using Cons.IH [OF st(1)] st(3) by simp
qed


lemma DeserialiseAsContainer_set_eq:
  "DeserialiseAsContainer_set emp f dflt c d =
     (let (xs, d') = for_each f (replicate (stored_count d) dflt) (snd (read_size_t d))
      in (foldl (\<lambda>c x. emp x c) c xs, d'))"
  by (simp add: DeserialiseAsContainer_set_def emplace_loop_set [unfolded Let_def]
        stored_count_def Let_def split: prod.splits)

lemma DeserialiseAsContainer_map_eq:
  "DeserialiseAsContainer_map emp kf vf kd vd c d =
     (let (es, d') = for_each (Variadic_pair kf vf) (replicate (stored_count d) (kd, vd))
                       (snd (read_size_t d))
      in (foldl (\<lambda>c e. emp e c) c es, d'))"
  by (simp add: DeserialiseAsContainer_map_def emplace_loop_map [unfolded Let_def]
        stored_count_def Let_def split: prod.splits)

lemma for_each_throwing_never:
  "for_each_throwing (\<lambda>x s. Some (f x s)) xs s = Some (for_each f xs s)"
  by (induction xs arbitrary: s) (simp_all split: prod.splits)

lemma priority_queue_throwing_never:
  "SerialiseAsContainer_priority_queue_throwing (\<lambda>x s. Some (f x s)) q s =
     (fst (SerialiseAsContainer_priority_queue (SerialiseAsContainer_sized f) q s),
      Some (snd (SerialiseAsContainer_priority_queue (SerialiseAsContainer_sized f) q s)))"
  by (simp add: SerialiseAsContainer_priority_queue_throwing_def
        SerialiseAsContainer_sized_throwing_def SerialiseAsContainer_priority_queue_def
        SerialiseAsContainer_sized_def for_each_throwing_never split_beta)

lemma for_each_throwing_None:
  "x \<in> set xs \<Longrightarrow> (\<And>s. f x s = None) \<Longrightarrow> for_each_throwing f xs s = None"
proof (induction xs arbitrary: s)
  case Nil
  then show ?case by simp
next
  case (Cons y ys)
  show ?case
  proof (cases "f y s")
    case None
    then show ?thesis by simp
  next
    case (Some r)
    then have "x \<noteq> y"
      using Cons.prems(2) [of s] by auto
    then have "for_each_throwing f ys (snd r) = None"
      using Cons by simp
    then show ?thesis
      using Some by (simp add: split_beta)
  qed
qed

lemma priority_queue_throwing_lost:
  "x \<in> set q \<Longrightarrow> (\<And>s. f x s = None) \<Longrightarrow>
     SerialiseAsContainer_priority_queue_throwing f q s = ([], None)"
  by (simp add: SerialiseAsContainer_priority_queue_throwing_def
        SerialiseAsContainer_sized_throwing_def for_each_throwing_None)

lemma measured_queue_throwing_never:
  "AddSizeOfContainer_priority_queue_throwing (\<lambda>x z. Some (f x z)) q z =
     (fst (AddSizeOfContainer_priority_queue (AddSizeOfContainer_sized f) q z),
      Some (snd (AddSizeOfContainer_priority_queue (AddSizeOfContainer_sized f) q z)))"
  by (simp add: AddSizeOfContainer_priority_queue_throwing_def
        AddSizeOfContainer_sized_throwing_def AddSizeOfContainer_priority_queue_def
        AddSizeOfContainer_sized_def for_each_throwing_never split_beta)

lemma measured_queue_throwing_lost:
  "x \<in> set q \<Longrightarrow> (\<And>z. f x z = None) \<Longrightarrow>
     AddSizeOfContainer_priority_queue_throwing f q z = ([], None)"
  by (simp add: AddSizeOfContainer_priority_queue_throwing_def
        AddSizeOfContainer_sized_throwing_def for_each_throwing_None)




section \<open>Decoding what was encoded\<close>
































section \<open>Hooks that do not agree\<close>



lemma Exclaiming_measured:
  "m_Size (snd (op_measure (\<lambda>c. Exclaiming) (Obj 0 [Str 1 [97, 98, 99]]) Sizer)) = 11"
  by (simp add: Exclaiming_def no_hooks_def SizeOf_def Sizer_def AddSizeOfMemory_def
        AddSizeOfContainer_basic_string_def sizeof_size_t_def)

lemma Exclaiming_written:
  "snd (op_write (\<lambda>c. Exclaiming) (Obj 0 [Str 1 [97, 98, 99]]) (Serialiser 0 (\<lambda>a. 0))) =
     SerialiseAsMemory (concat (map (encode plain_enc) [Str 1 [97, 98, 99, 33]]))
       (Serialiser 0 (\<lambda>a. 0))"
proof -
  have "snd (for_each (op_write plain_classes) [Str 1 [97, 98, 99, 33]] s) =
          SerialiseAsMemory (concat (map (encode plain_enc) [Str 1 [97, 98, 99, 33]])) s" for s
    by (intro for_each_writes op_write_encode all_objects_True plain_writes)
  then show ?thesis
    by (simp add: Exclaiming_def no_hooks_def Serialise_def)
qed

lemma Exclaiming_bytes_written:
  "GetBytesWritten (snd (op_write (\<lambda>c. Exclaiming) (Obj 0 [Str 1 [97, 98, 99]])
      (Serialiser 0 (\<lambda>a. 0)))) = 12"
  unfolding Exclaiming_written
  by (simp add: GetBytesWritten_def SerialiseAsMemory_def Serialiser_def sizeof_size_t_def)


section \<open>The claims\<close>

text \<open>
  C1, as amended. Measuring a value with a fresh Sizer gives the number of bytes that
  writing it advances a Serialiser's cursor by, for Leaf values, containers of every
  shape and objects nested in them, provided that for every object in the value
  there is a byte sequence, fixed by the object as it is before the operation, that
  \<^verbatim>\<open>Serialise\<close> puts at the cursor (\<open>writes_as\<close>: the before-hook runs first,
  then the write hook or the raw copy) and whose length \<^verbatim>\<open>SizeOf\<close> adds to the
  total (\<open>sizes_as\<close>: the size hook, or \<^verbatim>\<open>sizeof\<close>). The object may come back
  from the write changed by its lifecycle hooks. The core hooks are detected one by
  one and \<^verbatim>\<open>SizeOf\<close> runs no lifecycle hook, so the proviso is the user's to keep.
\<close>
theorem measure_equals_bytes_written:
  "all_objects (\<lambda>c x. writes_as (ct c) (enc c) x \<and> sizes_as (ct c) (enc c) x) v \<Longrightarrow>
     m_Size (snd (op_measure ct v Sizer)) = GetBytesWritten (snd (op_write ct v (Serialiser a m)))"
proof -
  assume h: "all_objects (\<lambda>c x. writes_as (ct c) (enc c) x \<and> sizes_as (ct c) (enc c) x) v"
  have imp: "all_objects (\<lambda>c x. P c x \<and> Q c x) w \<Longrightarrow> all_objects P w \<and> all_objects Q w"
    for P Q and w :: "'a val"
    by (induction "\<lambda>c x. P c x \<and> Q c x" w rule: all_objects.induct) (auto simp: list_all_iff)
  have w: "snd (op_write ct v (Serialiser a m)) = SerialiseAsMemory (encode enc v) (Serialiser a m)"
    using imp [OF h] by (intro op_write_encode) simp
  have z: "op_measure ct v Sizer = (v, AddSizeOfMemory (of_nat (length (encode enc v))) Sizer)"
    using imp [OF h] by (intro op_measure_encode) simp
  show ?thesis
    unfolding w z
    by (simp add: GetBytesWritten_def SerialiseAsMemory_def Serialiser_def Sizer_def
          AddSizeOfMemory_def)
qed

theorem measure_equals_bytes_written_witness:
  "all_objects (\<lambda>c x. writes_as (example_classes c) (example_enc c) x \<and>
                      sizes_as (example_classes c) (example_enc c) x) example_value \<and>
   GetBytesWritten (snd (op_write example_classes example_value (Serialiser 0 (\<lambda>a. 0)))) = 60 \<and>
   m_Size (snd (op_measure example_classes example_value Sizer)) = 60 \<and>
   all_objects (\<lambda>c x. writes_as (probe_class False) (\<lambda>x. take 2 (x @ [1, 0, 0])) x \<and>
                      sizes_as (probe_class False) (\<lambda>x. take 2 (x @ [1, 0, 0])) x) (Obj 0 [9]) \<and>
   fst (op_write (\<lambda>c. probe_class False) (Obj 0 [9]) (Serialiser 0 (\<lambda>a. 0))) = Obj 0 [9, 1, 3] \<and>
   GetBytesWritten (snd (op_write (\<lambda>c. probe_class False) (Obj 0 [9]) (Serialiser 0 (\<lambda>a. 0)))) = 2 \<and>
   m_Size (snd (op_measure (\<lambda>c. probe_class False) (Obj 0 [9]) Sizer)) = 2"
proof -
  have h: "all_objects (\<lambda>c x. writes_as (example_classes c) (example_enc c) x \<and>
                      sizes_as (example_classes c) (example_enc c) x) example_value"
    by (simp add: example_value_def ExampleStruct_writes ExampleStruct_sizes)
  have "all_objects (\<lambda>c x. writes_as (example_classes c) (example_enc c) x) example_value"
    by (simp add: example_value_def ExampleStruct_writes)
  note w = op_write_encode [OF this, of "Serialiser 0 (\<lambda>a. 0)"]
  have l: "length (encode example_enc example_value) = 60"
    by (simp add: example_value_def example_enc_def example_object_def sizeof_size_t_def)
  have e: "GetBytesWritten (snd (op_write example_classes example_value (Serialiser 0 (\<lambda>a. 0)))) = 60"
    unfolding w by (simp add: GetBytesWritten_def SerialiseAsMemory_def Serialiser_def l)
  have p: "all_objects (\<lambda>c x. writes_as (probe_class False) (\<lambda>x. take 2 (x @ [1, 0, 0])) x \<and>
                      sizes_as (probe_class False) (\<lambda>x. take 2 (x @ [1, 0, 0])) x) (Obj 0 [9])"
    by (simp add: writes_as_def sizes_as_def probe_class_def Serialise_def SizeOf_def)
  have f: "fst (op_write (\<lambda>c. probe_class False) (Obj 0 [9]) (Serialiser 0 (\<lambda>a. 0))) = Obj 0 [9, 1, 3]"
    by (simp add: probe_class_def Serialise_def)
  have g: "GetBytesWritten (snd (op_write (\<lambda>c. probe_class False) (Obj 0 [9])
             (Serialiser 0 (\<lambda>a. 0)))) = 2"
    by (simp add: probe_class_def Serialise_def GetBytesWritten_def SerialiseAsMemory_def
          Serialiser_def)
  show ?thesis
    using measure_equals_bytes_written [OF h, of 0 "\<lambda>a. 0"]
      measure_equals_bytes_written [OF p, of 0 "\<lambda>a. 0"] h e p f g
    by simp
qed

text \<open>
  C1 as stated fails. A type that declares \<^verbatim>\<open>OnSerialise\<close> and no
  \<^verbatim>\<open>OnSize\<close>, here one holding a string of three characters, is measured by its
  \<^verbatim>\<open>sizeof\<close> (32 bytes) and written through its hook (a count and the three
  characters, 11 bytes). A type that passes its string in both hooks and appends a
  character to it in \<^verbatim>\<open>OnBeforeSerialise\<close> is measured as 11 bytes and written
  as 12.
\<close>

theorem measure_differs_from_bytes_written:
  "m_Size (snd (op_measure example_classes (Obj 1 [Str 1 [97, 98, 99]]) Sizer)) = 32 \<and>
   GetBytesWritten (snd (op_write example_classes (Obj 1 [Str 1 [97, 98, 99]])
      (Serialiser 0 (\<lambda>a. 0)))) = 11 \<and>
   m_Size (snd (op_measure (\<lambda>c. Exclaiming) (Obj 0 [Str 1 [97, 98, 99]]) Sizer)) = 11 \<and>
   GetBytesWritten (snd (op_write (\<lambda>c. Exclaiming) (Obj 0 [Str 1 [97, 98, 99]])
      (Serialiser 0 (\<lambda>a. 0)))) = 12"
proof -
  have "m_Size (snd (op_measure example_classes (Obj 1 [Str 1 [97, 98, 99]]) Sizer)) = 32 \<and>
   GetBytesWritten (snd (op_write example_classes (Obj 1 [Str 1 [97, 98, 99]])
      (Serialiser 0 (\<lambda>a. 0)))) = 11"
    by (simp add: example_classes_def EncodeOnly_def no_hooks_def SizeOf_def Sizer_def
        AddSizeOfMemory_def Serialise_def Serialiser_def SerialiseAsContainer_basic_string_def
        SerialiseAsMemory_def GetBytesWritten_def sizeof_size_t_def)
  then show ?thesis
    using Exclaiming_measured Exclaiming_bytes_written by blast
qed




text \<open>
  C3. Reading a fixed-size container of capacity \<open>N = length c\<close>: the stored
  count is read first, the element functor then runs on exactly the first
  \<open>min N stored_count\<close> slots, in order, starting where the count ended; the
  later slots keep their contents and the capacity stays \<open>N\<close>. When every
  element takes \<open>e\<close> bytes the cursor ends \<open>min N stored_count * e\<close> bytes
  after the count, so the elements beyond \<open>N\<close> are not skipped.
\<close>
theorem fixed_size_read_takes_min:
  "DeserialiseAsContainer_array f c d =
     (let n = min (length c) (stored_count d);
          (ys, d2) = for_each f (take n c) (snd (read_size_t d))
      in (ys @ drop n c, d2)) \<and>
   length (fst (DeserialiseAsContainer_array f c d)) = length c \<and>
   (\<forall>i. min (length c) (stored_count d) \<le> i \<longrightarrow>
      fst (DeserialiseAsContainer_array f c d) ! i = c ! i) \<and>
   ((\<forall>x u. m_Head (snd (f x u)) = m_Head u + e) \<longrightarrow>
      m_Head (snd (DeserialiseAsContainer_array f c d)) =
        m_Head d + sizeof_size_t + min (length c) (stored_count d) * e)"
proof -
  define n where "n = min (length c) (stored_count d)"
  obtain Size d1 where r: "read_size_t d = (Size, d1)"
    by (cases "read_size_t d")
  have n: "n = (if length c < unat Size then length c else unat Size)"
    by (simp add: n_def stored_count_def r min_def)
  have nle: "n \<le> length c"
    by (simp add: n_def)
  obtain ys d2 where fe: "for_each f (take n c) d1 = (ys, d2)"
    by (cases "for_each f (take n c) d1")
  have len: "length ys = n"
    using for_each_length [OF fe] nle by simp
  have eq: "DeserialiseAsContainer_array f c d = (ys @ drop n c, d2)"
    using index_loop [of 0 n c f d1] nle
    by (simp add: DeserialiseAsContainer_array_def r n [symmetric] fe)
  have adv: "(\<forall>x u. m_Head (snd (f x u)) = m_Head u + e) \<Longrightarrow>
               m_Head (snd (for_each f xs u)) = m_Head u + length xs * e" for xs u
  proof (induction xs arbitrary: u)
    case Nil
    show ?case by simp
  next
    case (Cons x xs)
    obtain x' u1 where fx: "f x u = (x', u1)" by (cases "f x u")
    have "m_Head u1 = m_Head u + e"
      using Cons.prems fx by (metis snd_conv)
    then show ?case
      using Cons.IH [OF Cons.prems, of u1] by (cases "for_each f xs u1") (simp add: fx)
  qed
  have d1: "m_Head d1 = m_Head d + sizeof_size_t"
    using r by (auto simp: read_size_t_def DeserialiseAsMemory_def split: prod.splits)
  have 1: "DeserialiseAsContainer_array f c d =
     (let n = min (length c) (stored_count d);
          (ys, d2) = for_each f (take n c) (snd (read_size_t d))
      in (ys @ drop n c, d2))"
    by (simp add: eq n_def [symmetric] r fe)
  have 2: "length (fst (DeserialiseAsContainer_array f c d)) = length c"
    using nle by (simp add: eq len)
  have 3: "\<forall>i. min (length c) (stored_count d) \<le> i \<longrightarrow>
      fst (DeserialiseAsContainer_array f c d) ! i = c ! i"
    using nle by (auto simp: eq len nth_append n_def [symmetric])
  have 4: "(\<forall>x u. m_Head (snd (f x u)) = m_Head u + e) \<longrightarrow>
      m_Head (snd (DeserialiseAsContainer_array f c d)) =
        m_Head d + sizeof_size_t + min (length c) (stored_count d) * e"
  proof
    assume a: "\<forall>x u. m_Head (snd (f x u)) = m_Head u + e"
    show "m_Head (snd (DeserialiseAsContainer_array f c d)) =
        m_Head d + sizeof_size_t + min (length c) (stored_count d) * e"
      using adv [OF a, of "take n c" d1] nle by (simp add: eq fe d1 n_def [symmetric])
  qed
  show ?thesis
    using 1 2 3 4 by blast
qed


theorem fixed_size_read_takes_min_witness:
  "(\<forall>x u. m_Head (snd (Deserialise (trivial_class 1) x u)) = m_Head u + 1) \<and>
   fst (DeserialiseAsContainer_array (Deserialise (trivial_class 1)) [[1], [2]]
          (probe_buffer (size_t_repr 3 @ [7, 8, 9]))) = [[7], [8]] \<and>
   m_Head (snd (DeserialiseAsContainer_array (Deserialise (trivial_class 1)) [[1], [2]]
          (probe_buffer (size_t_repr 3 @ [7, 8, 9])))) = 10 \<and>
   fst (DeserialiseAsContainer_array (Deserialise (trivial_class 1)) [[1], [2]]
          (probe_buffer (size_t_repr 1 @ [7]))) = [[7], [2]]"
proof -
  have adv: "\<forall>x u. m_Head (snd (Deserialise (trivial_class 1) x u)) = m_Head u + 1"
    by simp
  have c3: "stored_count (probe_buffer (size_t_repr 3 @ [7, 8, 9])) = 3"
    by code_simp
  have c1: "stored_count (probe_buffer (size_t_repr 1 @ [7])) = 1"
    by code_simp
  have e3: "fst (for_each (Deserialise (trivial_class 1)) [[1], [2]]
              (snd (read_size_t (probe_buffer (size_t_repr 3 @ [7, 8, 9]))))) = [[7], [8]]"
    by code_simp
  have e1: "fst (for_each (Deserialise (trivial_class 1)) [[1]]
              (snd (read_size_t (probe_buffer (size_t_repr 1 @ [7]))))) = [[7]]"
    by code_simp
  have h: "m_Head (probe_buffer (size_t_repr 3 @ [7, 8, 9])) = 0"
    by (simp add: probe_buffer_def Deserialiser_def)
  note A = fixed_size_read_takes_min [of "Deserialise (trivial_class 1)" "[[1], [2]]"
      "probe_buffer (size_t_repr 3 @ [7, 8, 9])" 1]
  note B = fixed_size_read_takes_min [of "Deserialise (trivial_class 1)" "[[1], [2]]"
      "probe_buffer (size_t_repr 1 @ [7])" 1]
  have r1: "fst (DeserialiseAsContainer_array (Deserialise (trivial_class 1)) [[1], [2]]
          (probe_buffer (size_t_repr 3 @ [7, 8, 9]))) = [[7], [8]]"
    using A [THEN conjunct1] e3 by (simp add: c3 split_beta)
  have r2: "m_Head (snd (DeserialiseAsContainer_array (Deserialise (trivial_class 1)) [[1], [2]]
          (probe_buffer (size_t_repr 3 @ [7, 8, 9])))) = 10"
    using A [THEN conjunct2, THEN conjunct2, THEN conjunct2] adv
    by (simp add: c3 h sizeof_size_t_def)
  have r3: "fst (DeserialiseAsContainer_array (Deserialise (trivial_class 1)) [[1], [2]]
          (probe_buffer (size_t_repr 1 @ [7]))) = [[7], [2]]"
    using B [THEN conjunct1] e1 by (simp add: c1 split_beta)
  show ?thesis
    using adv r1 r2 r3 by blast
qed

text \<open>
  C4. One write or read of an object runs the before-hook if declared, then the core
  hook on the object the before-hook left, or the raw copy of that object when the
  core hook is absent, then the after-hook if declared: each once, in this order.
\<close>
theorem lifecycle_hook_order:
  "Serialise T x s =
     (run_hook (OnAfterSerialise T) (run_hook (OnBeforeSerialise T) x),
      (case OnSerialise T of
         Some core \<Rightarrow> core (run_hook (OnBeforeSerialise T) x) s
       | None \<Rightarrow> SerialiseAsMemory (object_repr T (run_hook (OnBeforeSerialise T) x)) s)) \<and>
   Deserialise T x d =
     (let (x', d') =
        (case OnDeserialise T of
           Some core \<Rightarrow> core (run_hook (OnBeforeDeserialise T) x) d
         | None \<Rightarrow> (object_of_repr T (bytes_at (memory d) (m_Head d) (sizeof_T T)),
                     advance (sizeof_T T) d))
      in (run_hook (OnAfterDeserialise T) x', d'))"
  by (simp add: Serialise_def Deserialise_def run_hook_def DeserialiseAsMemory_def advance_def
        Let_def split: option.splits prod.splits)

theorem lifecycle_hook_order_witness:
  "fst (Serialise (probe_class False) [] (Serialiser 0 (\<lambda>a. 0))) = [1, 3] \<and>
   bytes_at (memory (snd (Serialise (probe_class False) [] (Serialiser 0 (\<lambda>a. 0))))) 0 2 = [1, 0] \<and>
   bytes_at (memory (snd (Serialise (probe_class True) [] (Serialiser 0 (\<lambda>a. 0))))) 0 2 = [192, 1] \<and>
   fst (Deserialise (probe_class True) [] (Deserialiser 0 (\<lambda>a. 0))) = [1, 2, 3] \<and>
   fst (Deserialise (probe_class False) [] (Deserialiser 0 (\<lambda>a. 7))) = [7, 7, 3]"
proof -
  have 1: "run_hook (OnAfterSerialise (probe_class False))
             (run_hook (OnBeforeSerialise (probe_class False)) []) = [1, 3]"
    by (simp add: probe_class_def run_hook_def)
  have 2: "bytes_at (memory (SerialiseAsMemory (object_repr (probe_class False)
             (run_hook (OnBeforeSerialise (probe_class False)) [])) (Serialiser 0 (\<lambda>a. 0)))) 0 2 = [1, 0]"
    by code_simp
  have 3: "bytes_at (memory (snd (Serialise (probe_class True) [] (Serialiser 0 (\<lambda>a. 0))))) 0 2 = [192, 1]"
    by code_simp
  have 4: "fst (Deserialise (probe_class True) [] (Deserialiser 0 (\<lambda>a. 0))) = [1, 2, 3]"
    by code_simp
  have 5: "fst (Deserialise (probe_class False) [] (Deserialiser 0 (\<lambda>a. 7))) = [7, 7, 3]"
    by code_simp
  have 6: "OnSerialise (probe_class False) = None"
    by (simp add: probe_class_def)
  show ?thesis
    using lifecycle_hook_order [of "probe_class False" "[]" "Serialiser 0 (\<lambda>a. 0)"] 1 2 3 4 5 6
    by simp
qed

text \<open>
  C5 fails on the code. \<^verbatim>\<open>Sizer::AddSizeOfContainer\<close> on a
  \<^verbatim>\<open>priority_queue\<close> moves the measured queue, taken by const reference, into
  \<^verbatim>\<open>Helper\<close> and moves it back in the statement after the traversal. A queue
  holding 5, 3, 1 is measured with an element functor that throws on the second
  element: the exception leaves before the move back, and the measured queue stays as
  the move left it, empty. Measuring has changed the value it measured. The
  \<^verbatim>\<open>queue\<close> overload, which does not unwrap, leaves its adapter holding the
  elements, and when no element throws the \<^verbatim>\<open>priority_queue\<close> comes back as it
  was.
\<close>
theorem measured_priority_queue_lost_when_element_throws:
  "AddSizeOfContainer_priority_queue_throwing
     (throws_on [3] (Sizer_DefaultFunctor 1)) [[5], [3], [1]] Sizer = ([], None) \<and>
   fst (AddSizeOfContainer_queue_throwing
     (throws_on [3] (Sizer_DefaultFunctor 1)) [[5], [3], [1]] Sizer) = [[5], [3], [1]] \<and>
   AddSizeOfContainer_priority_queue_throwing
     (\<lambda>x z. Some (Sizer_DefaultFunctor 1 x z)) [[5], [3], [1]] Sizer =
     ([[5], [3], [1]], Some (AddSizeOfMemory 11 Sizer))"
  by (simp add: AddSizeOfContainer_priority_queue_throwing_def
        AddSizeOfContainer_queue_throwing_def AddSizeOfContainer_sized_throwing_def
        throws_on_def Sizer_DefaultFunctor_def AddSizeOfMemory_def sizeof_size_t_def)

text \<open>
  C6 fails on the code. A \<^verbatim>\<open>priority_queue\<close> holding 5, 3, 1 is written with an
  element functor that throws on the second element: the exception leaves through
  the overload before the queue is moved back, so the caller's queue stays as the
  move left it, empty, and its elements go with the helper. The \<^verbatim>\<open>queue\<close>
  overload, which does not unwrap, leaves its adapter holding the elements.
\<close>
theorem priority_queue_lost_when_element_throws:
  "SerialiseAsContainer_priority_queue_throwing
     (throws_on [3] (Serialise (trivial_class 1))) [[5], [3], [1]] (Serialiser 0 (\<lambda>a. 0)) =
     ([], None) \<and>
   fst (SerialiseAsContainer_queue_throwing
     (throws_on [3] (Serialise (trivial_class 1))) [[5], [3], [1]] (Serialiser 0 (\<lambda>a. 0))) =
     [[5], [3], [1]]"
  by (simp add: SerialiseAsContainer_priority_queue_throwing_def
        SerialiseAsContainer_queue_throwing_def SerialiseAsContainer_sized_throwing_def
        throws_on_def)

text \<open>
  C7. Reading a unique-key map or set (ordered by a strict linear comparison, or
  hashed) inserts the decoded elements one after another in stored order into the
  contents the destination has. Under every key the result holds the first entry
  with that key among the prior contents followed by the stored entries: a later
  entry with a key already present is dropped, and the keys stay distinct. The
  overloads have no failing branch.
\<close>
theorem unique_key_read_keeps_first_entry:
  "(unique_emplace emp_m fst c_m \<longrightarrow>
      fst (DeserialiseAsContainer_map emp_m kf vf kd vd c_m d) =
        foldl (\<lambda>c e. emp_m e c) c_m
          (fst (for_each (Variadic_pair kf vf) (replicate (stored_count d) (kd, vd))
                  (snd (read_size_t d)))) \<and>
      (\<forall>k. entry_of fst (fst (DeserialiseAsContainer_map emp_m kf vf kd vd c_m d)) k =
           entry_of fst (c_m @ fst (for_each (Variadic_pair kf vf)
              (replicate (stored_count d) (kd, vd)) (snd (read_size_t d)))) k) \<and>
      (distinct (map fst c_m) \<longrightarrow>
         distinct (map fst (fst (DeserialiseAsContainer_map emp_m kf vf kd vd c_m d))))) \<and>
   (unique_emplace emp_s (\<lambda>x. x) c_s \<longrightarrow>
      fst (DeserialiseAsContainer_set emp_s f dflt c_s d) =
        foldl (\<lambda>c x. emp_s x c) c_s
          (fst (for_each f (replicate (stored_count d) dflt) (snd (read_size_t d)))) \<and>
      (\<forall>k. entry_of (\<lambda>x. x) (fst (DeserialiseAsContainer_set emp_s f dflt c_s d)) k =
           entry_of (\<lambda>x. x) (c_s @ fst (for_each f (replicate (stored_count d) dflt)
              (snd (read_size_t d)))) k) \<and>
      (distinct c_s \<longrightarrow> distinct (fst (DeserialiseAsContainer_set emp_s f dflt c_s d))))"
proof (intro conjI impI allI)
  assume u: "unique_emplace emp_m fst c_m"
  define es where "es = fst (for_each (Variadic_pair kf vf) (replicate (stored_count d) (kd, vd))
                  (snd (read_size_t d)))"
  have r: "fst (DeserialiseAsContainer_map emp_m kf vf kd vd c_m d) = foldl (\<lambda>c e. emp_m e c) c_m es"
    by (simp add: DeserialiseAsContainer_map_eq es_def split_beta)
  show "fst (DeserialiseAsContainer_map emp_m kf vf kd vd c_m d) = foldl (\<lambda>c e. emp_m e c) c_m es"
    by (rule r)
  show "entry_of fst (fst (DeserialiseAsContainer_map emp_m kf vf kd vd c_m d)) k =
           entry_of fst (c_m @ es) k" for k
    using unique_emplace_foldl [OF u, where xs = es and k = k] by (simp add: r)
  assume "distinct (map fst c_m)"
  then show "distinct (map fst (fst (DeserialiseAsContainer_map emp_m kf vf kd vd c_m d)))"
    using unique_emplace_foldl [OF u, where xs = es] by (simp add: r)
next
  assume u: "unique_emplace emp_s (\<lambda>x. x) c_s"
  define xs where "xs = fst (for_each f (replicate (stored_count d) dflt) (snd (read_size_t d)))"
  have r: "fst (DeserialiseAsContainer_set emp_s f dflt c_s d) = foldl (\<lambda>c x. emp_s x c) c_s xs"
    by (simp add: DeserialiseAsContainer_set_eq xs_def split_beta)
  show "fst (DeserialiseAsContainer_set emp_s f dflt c_s d) = foldl (\<lambda>c x. emp_s x c) c_s xs"
    by (rule r)
  show "entry_of (\<lambda>x. x) (fst (DeserialiseAsContainer_set emp_s f dflt c_s d)) k =
           entry_of (\<lambda>x. x) (c_s @ xs) k" for k
    using unique_emplace_foldl [OF u, where xs = xs and k = k] by (simp add: r)
  assume "distinct c_s"
  then show "distinct (fst (DeserialiseAsContainer_set emp_s f dflt c_s d))"
    using unique_emplace_foldl [OF u, where xs = xs] by (simp add: r)
qed

theorem unique_key_read_keeps_first_entry_witness:
  "unique_emplace (emplace_unique (<) fst) fst ([] :: (nat \<times> nat) list) \<and>
   fst (DeserialiseAsContainer_map (emplace_unique (<) fst) read_byte read_byte 0 0 []
          (probe_buffer (size_t_repr 3 @ [3, 10, 1, 20, 3, 30]))) = [(1, 20), (3, 10)] \<and>
   unique_emplace (emplace_hashed_unique (\<lambda>k ks. 0) (\<lambda>x. x)) (\<lambda>x. x) [7 :: nat] \<and>
   fst (DeserialiseAsContainer_set (emplace_hashed_unique (\<lambda>k ks. 0) (\<lambda>x. x)) read_byte 0 [7]
          (probe_buffer (size_t_repr 3 @ [5, 7, 5]))) = [5, 7]"
proof -
  have lin: "strict_linear ((<) :: nat \<Rightarrow> nat \<Rightarrow> bool)"
    by (auto simp: strict_linear_def)
  have u1: "unique_emplace (emplace_unique (<) fst) fst ([] :: (nat \<times> nat) list)"
    unfolding unique_emplace_def using lin by (intro disjI2 exI [of _ "(<)"]) simp
  have u2: "unique_emplace (emplace_hashed_unique (\<lambda>k ks. 0) (\<lambda>x. x)) (\<lambda>x. x) [7 :: nat]"
    unfolding unique_emplace_def by blast
  have e1: "fst (for_each (Variadic_pair read_byte read_byte)
               (replicate (stored_count (probe_buffer (size_t_repr 3 @ [3, 10, 1, 20, 3, 30]))) (0, 0))
               (snd (read_size_t (probe_buffer (size_t_repr 3 @ [3, 10, 1, 20, 3, 30]))))) =
             [(3, 10), (1, 20), (3, 30)]"
    by code_simp
  have e2: "fst (for_each read_byte
               (replicate (stored_count (probe_buffer (size_t_repr 3 @ [5, 7, 5]))) 0)
               (snd (read_size_t (probe_buffer (size_t_repr 3 @ [5, 7, 5]))))) = [5, 7, 5]"
    by code_simp
  note T = unique_key_read_keeps_first_entry [of "emplace_unique (<) fst" "[]"
      read_byte read_byte 0 0 "probe_buffer (size_t_repr 3 @ [3, 10, 1, 20, 3, 30])"
      "emplace_hashed_unique (\<lambda>k ks. 0) (\<lambda>x. x)" "[7]"]
  have r1: "fst (DeserialiseAsContainer_map (emplace_unique (<) fst) read_byte read_byte 0 0 []
          (probe_buffer (size_t_repr 3 @ [3, 10, 1, 20, 3, 30]))) = [(1, 20), (3, 10)]"
    using T [THEN conjunct1, rule_format, OF u1, THEN conjunct1] by (simp add: e1)
  note T2 = unique_key_read_keeps_first_entry [of "emplace_unique (<) fst" "[]"
      read_byte read_byte 0 0 "probe_buffer (size_t_repr 3 @ [5, 7, 5])"
      "emplace_hashed_unique (\<lambda>k ks. 0) (\<lambda>x. x)" "[7]" read_byte 0]
  have r2: "fst (DeserialiseAsContainer_set (emplace_hashed_unique (\<lambda>k ks. 0) (\<lambda>x. x)) read_byte 0 [7]
          (probe_buffer (size_t_repr 3 @ [5, 7, 5]))) = [5, 7]"
    using T2 [THEN conjunct2, rule_format, OF u2, THEN conjunct1]
    by (simp add: e2 emplace_hashed_unique_def insert_at_def)
  show ?thesis
    using u1 r1 u2 r2 by blast
qed




text \<open>
  C8. Writing a variable-length container (string, vector, list, forward_list, deque,
  the maps and the sets) first writes the element count in the eight-byte unsigned
  representation of \<^verbatim>\<open>size_t\<close>, then the elements. The \<^verbatim>\<open>forward_list\<close>
  overload holds its count in a \<^verbatim>\<open>ptrdiff_t\<close>; the bytes it writes are the same.
  When the objects inside write forward only, these bytes stay at the place the
  cursor had.
\<close>
theorem count_header_is_size_t:
  "variable_length v \<longrightarrow>
     snd (op_write ct v s) =
       write_elements ct v (SerialiseAsMemory (size_t_repr (of_nat (element_count v))) s) \<and>
     length (size_t_repr (of_nat (element_count v))) = sizeof_size_t \<and>
     (all_objects (\<lambda>c x. writes_as (ct c) (enc c) x) v \<longrightarrow>
        bytes_at (memory (snd (op_write ct v s))) (m_Head s) sizeof_size_t =
          size_t_repr (of_nat (element_count v)))"
proof (intro impI conjI)
  assume v: "variable_length v"
  show "snd (op_write ct v s) =
       write_elements ct v (SerialiseAsMemory (size_t_repr (of_nat (element_count v))) s)"
    using v
    by (cases v)
       (simp_all add: SerialiseAsContainer_basic_string_def SerialiseAsContainer_sized_def
          SerialiseAsContainer_forward_list_def ptrdiff_t_repr_int split_beta Let_def)
  show "length (size_t_repr (of_nat (element_count v))) = sizeof_size_t"
    by simp
  assume w: "all_objects (\<lambda>c x. writes_as (ct c) (enc c) x) v"
  have "bytes_at (memory (SerialiseAsMemory (encode enc v) s)) (m_Head s) (length (encode enc v)) =
          encode enc v"
    by (simp add: SerialiseAsMemory_def)
  then have "holds (Deserialiser (m_Head s) (memory (SerialiseAsMemory (encode enc v) s)))
               (take sizeof_size_t (encode enc v) @ drop sizeof_size_t (encode enc v))"
    by (simp add: holds_def Deserialiser_def)
  then have "bytes_at (memory (SerialiseAsMemory (encode enc v) s)) (m_Head s)
               (length (take sizeof_size_t (encode enc v))) = take sizeof_size_t (encode enc v)"
    using holds_bytes_at [of "Deserialiser (m_Head s) (memory (SerialiseAsMemory (encode enc v) s))"
        "take sizeof_size_t (encode enc v)" "drop sizeof_size_t (encode enc v)"]
    by (simp add: Deserialiser_def)
  then show "bytes_at (memory (snd (op_write ct v s))) (m_Head s) sizeof_size_t =
          size_t_repr (of_nat (element_count v))"
    using encode_header [OF v, of enc] by (simp add: op_write_encode [OF w])
qed

theorem count_header_is_size_t_witness:
  "variable_length (Seq std_forward_list [Leaf [7], Leaf [9 :: byte_t]] :: unit val) \<and>
   all_objects (\<lambda>c x. writes_as (plain_classes c) (plain_enc c) x)
     (Seq std_forward_list [Leaf [7], Leaf [9]]) \<and>
   bytes_at (memory (snd (op_write plain_classes (Seq std_forward_list [Leaf [7], Leaf [9]])
      (Serialiser 0 (\<lambda>a. 0))))) 0 8 = [2, 0, 0, 0, 0, 0, 0, 0]"
proof -
  define X :: "unit val" where "X = Seq std_forward_list [Leaf [7], Leaf [9]]"
  have v: "variable_length X"
    by (simp add: X_def)
  have a: "all_objects (\<lambda>c x. writes_as (plain_classes c) (plain_enc c) x) X"
    by (simp add: X_def)
  have h0: "m_Head (Serialiser 0 (\<lambda>a. 0)) = 0"
    by (simp add: Serialiser_def)
  have cnt: "size_t_repr (of_nat (element_count X)) = [2, 0, 0, 0, 0, 0, 0, 0]"
    by (simp add: X_def size_t_repr_def sizeof_size_t_def le_bytes_8)
  have "bytes_at (memory (snd (op_write plain_classes X (Serialiser 0 (\<lambda>a. 0)))))
          (m_Head (Serialiser 0 (\<lambda>a. 0))) sizeof_size_t =
        size_t_repr (of_nat (element_count X))"
    using count_header_is_size_t [of X plain_classes "Serialiser 0 (\<lambda>a. 0)" plain_enc] v a
    by blast
  then have "bytes_at (memory (snd (op_write plain_classes X (Serialiser 0 (\<lambda>a. 0))))) 0 8 =
        [2, 0, 0, 0, 0, 0, 0, 0]"
    unfolding h0 cnt sizeof_size_t_def .
  then show ?thesis
    using v a unfolding X_def by blast
qed

text \<open>
  C10. Reading into a \<^verbatim>\<open>std::list\<close> appends the decoded elements to the
  elements the destination holds; reading into a \<^verbatim>\<open>std::forward_list\<close> puts
  them, in stored order, in front of those elements. Neither clears the destination.
\<close>
theorem list_read_keeps_prior_elements:
  "DeserialiseAsContainer_list f dflt c d =
     (let (ys, d2) = for_each f (replicate (stored_count d) dflt) (snd (read_size_t d))
      in (c @ ys, d2)) \<and>
   DeserialiseAsContainer_forward_list f dflt c d =
     (let (ys, d2) = for_each f (replicate (stored_count d) dflt) (snd (read_size_t d))
      in (ys @ c, d2))"
  by (simp add: DeserialiseAsContainer_list_def DeserialiseAsContainer_forward_list_def
        emplace_back_loop [unfolded Let_def] emplace_after_loop [unfolded Let_def]
        stored_count_def Let_def split: prod.splits)


theorem list_read_keeps_prior_elements_witness:
  "fst (DeserialiseAsContainer_list (Deserialise (trivial_class 1)) [0] [[1]]
          (probe_buffer (size_t_repr 2 @ [7, 9]))) = [[1], [7], [9]] \<and>
   fst (DeserialiseAsContainer_forward_list (Deserialise (trivial_class 1)) [0] [[1]]
          (probe_buffer (size_t_repr 2 @ [7, 9]))) = [[7], [9], [1]]"
proof -
  have e: "fst (for_each (Deserialise (trivial_class 1))
                 (replicate (stored_count (probe_buffer (size_t_repr 2 @ [7, 9]))) [0])
                 (snd (read_size_t (probe_buffer (size_t_repr 2 @ [7, 9]))))) = [[7], [9]]"
    by code_simp
  show ?thesis
    using list_read_keeps_prior_elements [of "Deserialise (trivial_class 1)" "[0]" "[[1]]"
        "probe_buffer (size_t_repr 2 @ [7, 9])"] e
    by (simp add: split_beta)
qed

end
